theory Spec2Isabelle
  imports Complex_Main "HOL-Library.AList"
begin

section \<open>LoadData: a shallow embedding of \<^verbatim>\<open>cellprofiler/modules/loaddata.py\<close>\<close>

text \<open>
  The module is Python 2. Strings are byte strings (\<open>string\<close>), lists are HOL lists,
  a \<^verbatim>\<open>dict\<close> is an association list with distinct keys that is read with
  \<open>map_of\<close> and written with \<open>AList.update\<close>, and every \<^verbatim>\<open>raise\<close> is the
  \<open>Inl\<close> branch of a sum. The association lists keep insertion order, Python 2
  dictionaries iterate in hash order: the theorems below do not depend on the order
  in which a dictionary with several keys is iterated.
\<close>

subsection \<open>Strings\<close>

text \<open>\<^verbatim>\<open>s.startswith(p)\<close>\<close>

definition startswith :: "string \<Rightarrow> string \<Rightarrow> bool" where
  "startswith s p = (take (length p) s = p)"

text \<open>\<^verbatim>\<open>sep.join(xs)\<close>\<close>

fun join :: "string \<Rightarrow> string list \<Rightarrow> string" where
  "join sep [] = []"
| "join sep [x] = x"
| "join sep (x # y # ys) = x @ sep @ join sep (y # ys)"

text \<open>
  \<^verbatim>\<open>s.split(c)\<close> for a one-character separator: every occurrence splits, so the
  result is never empty (\<^verbatim>\<open>''.split('_') == ['']\<close>).
\<close>

fun split :: "char \<Rightarrow> string \<Rightarrow> string list" where
  "split c [] = [[]]"
| "split c (x # xs) =
     (if x = c then [] # split c xs
      else (case split c xs of
              [] \<Rightarrow> [[x]]
            | w # ws \<Rightarrow> (x # w) # ws))"

subsection \<open>Module constants\<close>

definition PATH_NAME :: string where
  "PATH_NAME = ''PathName''"

definition FILE_NAME :: string where
  "FILE_NAME = ''FileName''"

text \<open>Reserve extra space in pathnames for batch processing name rewrites.\<close>

definition PATH_PADDING :: nat where
  "PATH_PADDING = 20"

text \<open>
  Modelled from the spec: the constant \<^verbatim>\<open>cpmeas.IMAGE\<close> of
  \<^verbatim>\<open>cellprofiler.measurements\<close>, which is not among the sources. The spec names
  the stripped prefix \<^verbatim>\<open>"Image_"\<close>, and the docstring of \<^verbatim>\<open>header_to_column\<close>
  says that it converts \<^verbatim>\<open>Image_FileName\<close> to \<^verbatim>\<open>FileName\<close>.
\<close>

definition IMAGE :: string where
  "IMAGE = ''Image''"

subsection \<open>Errors\<close>

text \<open>
  One constructor per exception the modelled code can raise. The \<^verbatim>\<open>ValueError\<close>s
  carry the arguments of their format strings:
  \<^item> \<open>ValueError_not_feature f\<close>: \<^verbatim>\<open>'"%s" is not a path feature or file name feature'\<close>;
  \<^item> \<open>ValueError_no_csv p\<close>: \<^verbatim>\<open>Can't find the CSV file, "%s". ...\<close>;
  \<^item> \<open>ValueError_row i n m\<close>: \<^verbatim>\<open>"Row # %d has the wrong number of elements: %d. Expected %d"\<close>;
  \<^item> \<open>ValueError_line l f r n m\<close>:
    \<^verbatim>\<open>'Error on line %d of %s.\n\n"%s"\n%d rows found, expected %d'\<close>;
  \<^item> \<open>ValueError_no_file_name i\<close>: \<^verbatim>\<open>'The CSV file has an Image_PathName_%s metadata
    column without a corresponding Image_FileName_%s column'\<close>.
\<close>

datatype error =
    ValueError_not_feature string
  | ValueError_no_csv string
  | ValueError_row int nat nat
  | ValueError_line nat string string nat nat
  | ValueError_no_file_name string
  | IOError
  | OSError
  | StopIteration
  | CsvError
  | IndexError
  | KeyError string
  | UnboundLocalError

subsection \<open>Header columns\<close>

text \<open>
  \<^verbatim>\<open>
  def header_to_column(field):
      for name in (PATH_NAME, FILE_NAME):
          if field.startswith(cpmeas.IMAGE+'_'+name+'_'):
              return field[len(cpmeas.IMAGE)+1:]
      return field
  \<close>
  No operation of the body can raise on a string, so the model is a plain function.
\<close>

fun header_to_column_loop :: "string list \<Rightarrow> string \<Rightarrow> string" where
  "header_to_column_loop [] field = field"
| "header_to_column_loop (name # names) field =
     (if startswith field (IMAGE @ ''_'' @ name @ ''_'')
      then drop (length IMAGE + 1) field
      else header_to_column_loop names field)"

definition header_to_column :: "string \<Rightarrow> string" where
  "header_to_column field = header_to_column_loop [PATH_NAME, FILE_NAME] field"

definition is_path_name_feature :: "string \<Rightarrow> bool" where
  "is_path_name_feature feature = startswith feature (PATH_NAME @ ''_'')"

definition is_file_name_feature :: "string \<Rightarrow> bool" where
  "is_file_name_feature feature = startswith feature (FILE_NAME @ ''_'')"

definition get_image_name :: "string \<Rightarrow> error + string" where
  "get_image_name feature =
     (if is_path_name_feature feature then Inr (drop (length (PATH_NAME @ ''_'')) feature)
      else if is_file_name_feature feature then Inr (drop (length (FILE_NAME @ ''_'')) feature)
      else Inl (ValueError_not_feature feature))"

definition make_path_name_feature :: "string \<Rightarrow> string" where
  "make_path_name_feature image_name = PATH_NAME @ ''_'' @ image_name"

definition make_file_name_feature :: "string \<Rightarrow> string" where
  "make_file_name_feature image_name = FILE_NAME @ ''_'' @ image_name"


subsection \<open>Python sequences\<close>

text \<open>
  \<^verbatim>\<open>xs[i]\<close> on a list or a numpy array: a negative index counts from the end, an
  index out of range raises \<^verbatim>\<open>IndexError\<close>.
\<close>

definition getitem :: "'a list \<Rightarrow> int \<Rightarrow> error + 'a" where
  "getitem xs i =
     (if 0 \<le> i \<and> i < int (length xs) then Inr (xs ! nat i)
      else if i < 0 \<and> - int (length xs) \<le> i then Inr (xs ! nat (int (length xs) + i))
      else Inl IndexError)"

text \<open>
  A loop (or comprehension) that computes one result per element and stops at the
  first exception.
\<close>

fun for_each :: "('a \<Rightarrow> error + 'b) \<Rightarrow> 'a list \<Rightarrow> error + 'b list" where
  "for_each f [] = Inr []"
| "for_each f (x # xs) =
     (case f x of
        Inl e \<Rightarrow> Inl e
      | Inr y \<Rightarrow> (case for_each f xs of Inl e \<Rightarrow> Inl e | Inr ys \<Rightarrow> Inr (y # ys)))"

subsection \<open>Typed columns and the type inferrer\<close>

text \<open>
  A cell value after type inference is a Python \<^verbatim>\<open>int\<close>, \<^verbatim>\<open>float\<close> or \<^verbatim>\<open>str\<close>; a
  column is a numpy array of one of the three. Floating-point numbers are a type
  parameter \<open>'f\<close>: nothing below computes with them.
\<close>

datatype 'f scalar = IntV int | FloatV 'f | StrV string

datatype 'f column = IntColumn "int list" | FloatColumn "'f list" | StrColumn "string list"

fun column_values :: "'f column \<Rightarrow> 'f scalar list" where
  "column_values (IntColumn xs) = map IntV xs"
| "column_values (FloatColumn xs) = map FloatV xs"
| "column_values (StrColumn xs) = map StrV xs"

definition column_len :: "'f column \<Rightarrow> nat" where
  "column_len c = length (column_values c)"

definition column_getitem :: "'f column \<Rightarrow> int \<Rightarrow> error + 'f scalar" where
  "column_getitem c i = getitem (column_values c) i"

text \<open>
  The builtins \<^verbatim>\<open>int(x)\<close> and \<^verbatim>\<open>float(x)\<close> on a string are parameters \<open>py_int\<close> and
  \<open>py_float\<close> of everything that calls them; \<open>None\<close> is their \<^verbatim>\<open>ValueError\<close>.
  \<open>cast_all f sequence\<close> is the comprehension \<^verbatim>\<open>[f(x) for x in sequence]\<close>, which
  raises as soon as one element does.
\<close>

fun cast_all :: "(string \<Rightarrow> 'a option) \<Rightarrow> string list \<Rightarrow> 'a list option" where
  "cast_all f [] = Some []"
| "cast_all f (x # xs) =
     (case f x of
        None \<Rightarrow> None
      | Some v \<Rightarrow> (case cast_all f xs of None \<Rightarrow> None | Some vs \<Rightarrow> Some (v # vs)))"

text \<open>
  \<^verbatim>\<open>
  def best_cast(sequence):
      try:
          return np.array([int(x) for x in sequence])
      except ValueError:
          try:
              return np.array([float(x) for x in sequence])
          except ValueError:
              return np.array(sequence)
  \<close>
  \<^verbatim>\<open>np.array\<close> is taken to keep the values of the sequence it is given.
\<close>

definition best_cast ::
  "(string \<Rightarrow> int option) \<Rightarrow> (string \<Rightarrow> 'f option) \<Rightarrow> string list \<Rightarrow> 'f column" where
  "best_cast py_int py_float sequence =
     (case cast_all py_int sequence of
        Some xs \<Rightarrow> IntColumn xs
      | None \<Rightarrow>
          (case cast_all py_float sequence of
             Some ys \<Rightarrow> FloatColumn ys
           | None \<Rightarrow> StrColumn sequence))"

subsection \<open>Decimal literals\<close>

text \<open>
  An instance of the two parsers, used where a property is evaluated on a concrete
  file: the decimal literals with an optional sign, which \<^verbatim>\<open>int\<close> accepts, and those
  with an optional fraction after a point, which \<^verbatim>\<open>float\<close> accepts. The builtins
  accept more (surrounding white space, exponents, \<^verbatim>\<open>inf\<close>, \<^verbatim>\<open>nan\<close>). The value of a
  literal with a fraction is kept as a rational number.
\<close>

definition digit_value :: "char \<Rightarrow> nat option" where
  "digit_value c =
     map_of [(CHR ''0'', 0), (CHR ''1'', 1), (CHR ''2'', 2), (CHR ''3'', 3), (CHR ''4'', 4),
             (CHR ''5'', 5), (CHR ''6'', 6), (CHR ''7'', 7), (CHR ''8'', 8), (CHR ''9'', 9)] c"

fun digits_value :: "nat \<Rightarrow> string \<Rightarrow> nat option" where
  "digits_value acc [] = Some acc"
| "digits_value acc (c # cs) =
     (case digit_value c of None \<Rightarrow> None | Some d \<Rightarrow> digits_value (10 * acc + d) cs)"

definition unsigned_int :: "string \<Rightarrow> int option" where
  "unsigned_int s = (if s = [] then None else map_option int (digits_value 0 s))"

definition unsigned_float :: "string \<Rightarrow> rat option" where
  "unsigned_float s =
     (let whole = takeWhile (\<lambda>c. c \<noteq> CHR ''.'') s;
          frac = drop (length whole + 1) s
      in if whole = [] \<and> frac = [] then None
         else (case (digits_value 0 whole, digits_value 0 frac) of
                 (Some w, Some f) \<Rightarrow> Some (of_nat w + of_nat f / 10 ^ length frac)
               | _ \<Rightarrow> None))"

definition signed :: "(string \<Rightarrow> 'a::uminus option) \<Rightarrow> string \<Rightarrow> 'a option" where
  "signed parse s =
     (case s of
        [] \<Rightarrow> None
      | c # cs \<Rightarrow>
          if c = CHR ''-'' then map_option uminus (parse cs)
          else if c = CHR ''+'' then parse cs
          else parse s)"

definition decimal_int :: "string \<Rightarrow> int option" where
  "decimal_int = signed unsigned_int"

definition decimal_float :: "string \<Rightarrow> rat option" where
  "decimal_float = signed unsigned_float"


subsection \<open>The CSV file\<close>

text \<open>
  \<^verbatim>\<open>csv.reader(fd)\<close> is an iterator over the records of the file: each step yields
  a list of fields, or raises \<^verbatim>\<open>csv.Error\<close> on a record it cannot parse. The first
  record is the header. A file is its change time and its records; the file system
  maps a path to the file there, if any.
\<close>

datatype csv_item = Row "string list" | Malformed

record csv_file =
  st_ctime :: int
  records :: "csv_item list"

type_synonym filesystem = "string \<Rightarrow> csv_file option"

text \<open>\<^verbatim>\<open>reader.next()\<close>\<close>

fun reader_next :: "csv_item list \<Rightarrow> error + (string list \<times> csv_item list)" where
  "reader_next [] = Inl StopIteration"
| "reader_next (Malformed # reader) = Inl CsvError"
| "reader_next (Row row # reader) = Inr (row, reader)"

text \<open>\<^verbatim>\<open>[row for row in reader]\<close>\<close>

fun read_all :: "csv_item list \<Rightarrow> error + string list list" where
  "read_all [] = Inr []"
| "read_all (Malformed # reader) = Inl CsvError"
| "read_all (Row row # reader) =
     (case read_all reader of Inl e \<Rightarrow> Inl e | Inr rows \<Rightarrow> Inr (row # rows))"

subsection \<open>Settings of the module\<close>

text \<open>
  The settings that the modelled code reads. \<open>csv_path\<close> is the property that joins
  the chosen folder and the file name; \<open>row_range_min\<close> and \<open>row_range_max\<close> are
  \<^verbatim>\<open>self.row_range.min\<close> and \<^verbatim>\<open>self.row_range.max\<close>.
\<close>

record settings =
  csv_path :: string
  csv_file_name :: string
  wants_images :: bool
  wants_rows :: bool
  row_range_min :: int
  row_range_max :: int

subsection \<open>Loading the file: \<^verbatim>\<open>prepare_run\<close>\<close>

text \<open>
  \<^verbatim>\<open>
  for i in range(n_to_skip):
      reader.next()
  \<close>
\<close>

fun skip_rows :: "nat \<Rightarrow> csv_item list \<Rightarrow> error + csv_item list" where
  "skip_rows 0 reader = Inr reader"
| "skip_rows (Suc n) reader =
     (case reader_next reader of
        Inl e \<Rightarrow> Inl e
      | Inr (row, reader') \<Rightarrow> skip_rows n reader')"

text \<open>
  \<^verbatim>\<open>
  for row in reader:
      if len(row) != len(header):
          raise ValueError("Row # %d has the wrong number of elements: %d. Expected %d"%
                           (i,len(row),len(header)))
      rows.append(row)
      if i == self.row_range.max - 1:
          break
      i += 1
  \<close>
\<close>

fun read_range ::
  "nat \<Rightarrow> int \<Rightarrow> int \<Rightarrow> csv_item list \<Rightarrow> string list list \<Rightarrow> error + string list list" where
  "read_range n_header range_max i [] rows = Inr rows"
| "read_range n_header range_max i (Malformed # reader) rows = Inl CsvError"
| "read_range n_header range_max i (Row row # reader) rows =
     (if length row \<noteq> n_header then Inl (ValueError_row i (length row) n_header)
      else if i = range_max - 1 then Inr (rows @ [row])
      else read_range n_header range_max (i + 1) reader (rows @ [row]))"

text \<open>
  Lines 360 to 377. After \<^verbatim>\<open>i=0\<close> and \<^verbatim>\<open>for i in range(n_to_skip)\<close> the variable \<open>i\<close>
  holds \<open>n_to_skip - 1\<close> when the loop ran and \<open>0\<close> when it did not; then
  \<^verbatim>\<open>i += 1\<close>.
\<close>

definition read_rows :: "settings \<Rightarrow> nat \<Rightarrow> csv_item list \<Rightarrow> error + string list list" where
  "read_rows self n_header reader =
     (if wants_rows self then
        (let n_to_skip = row_range_min self - 1;
             i = (if 0 < n_to_skip then n_to_skip - 1 else 0)
         in case skip_rows (nat n_to_skip) reader of
              Inl e \<Rightarrow> Inl e
            | Inr reader' \<Rightarrow> read_range n_header (row_range_max self) (i + 1) reader' [])
      else read_all reader)"

text \<open>
  Lines 382 to 390, \<^verbatim>\<open>for i, row in enumerate(rows)\<close>: the first row of the wrong
  length raises, with the line \<open>i+2\<close>, the file name, \<^verbatim>\<open>','.join(row)\<close> and the two
  lengths.
\<close>

fun check_rows :: "string \<Rightarrow> nat \<Rightarrow> nat \<Rightarrow> string list list \<Rightarrow> error option" where
  "check_rows file_name n_header i [] = None"
| "check_rows file_name n_header i (row # rows) =
     (if length row \<noteq> n_header
      then Some (ValueError_line (i + 2) file_name (join '','' row) (length row) n_header)
      else check_rows file_name n_header (Suc i) rows)"

text \<open>
  The three dictionaries of lines 394 to 396. \<open>images\<close> maps an image name to a
  dictionary with the keys \<open>FILE_NAME\<close> and \<open>PATH_NAME\<close>.
\<close>

record 'f tables =
  dictionary :: "(string \<times> 'f column) list"
  metadata :: "(string \<times> 'f column) list"
  images :: "(string \<times> (string \<times> string list) list) list"

text \<open>
  \<^verbatim>\<open>
  if not images.has_key(image):
      images[image] = {}
  images[image][name] = column
  \<close>
\<close>

definition set_image_column ::
  "string \<Rightarrow> string \<Rightarrow> string list
   \<Rightarrow> (string \<times> (string \<times> string list) list) list
   \<Rightarrow> (string \<times> (string \<times> string list) list) list" where
  "set_image_column image_name name column ims =
     (let d = (case map_of ims image_name of None \<Rightarrow> [] | Some d \<Rightarrow> d)
      in AList.update image_name (AList.update name column d) ims)"

text \<open>
  The body of the loop of lines 397 to 421 for the header index \<open>i\<close>. Every row has
  the length of the header here, so \<^verbatim>\<open>row[i]\<close> is in range.
\<close>

definition arrange_column ::
  "(string \<Rightarrow> int option) \<Rightarrow> (string \<Rightarrow> 'f option) \<Rightarrow> settings \<Rightarrow> string list
   \<Rightarrow> string list list \<Rightarrow> 'f tables \<Rightarrow> nat \<Rightarrow> error + 'f tables" where
  "arrange_column py_int py_float self header rows t i =
     (let column = map (\<lambda>row. row ! i) rows; h = header ! i in
      if startswith h ''Metadata_'' then
        (let key = drop (length ''Metadata_'') h;
             c = best_cast py_int py_float column
         in Inr (t\<lparr>dictionary := AList.update h c (dictionary t),
                   metadata := AList.update key c (metadata t)\<rparr>))
      else if wants_images self \<and> is_file_name_feature h then
        (case get_image_name h of
           Inl e \<Rightarrow> Inl e
         | Inr image_name \<Rightarrow>
             Inr (t\<lparr>images := set_image_column image_name FILE_NAME column (images t),
                    dictionary := AList.update h (StrColumn column) (dictionary t)\<rparr>))
      else if wants_images self \<and> is_path_name_feature h then
        (case get_image_name h of
           Inl e \<Rightarrow> Inl e
         | Inr image_name \<Rightarrow>
             Inr (t\<lparr>images := set_image_column image_name PATH_NAME column (images t),
                    dictionary := AList.update h (StrColumn column) (dictionary t)\<rparr>))
      else Inr (t\<lparr>dictionary := AList.update h (best_cast py_int py_float column)
                                    (dictionary t)\<rparr>))"

fun arrange ::
  "(string \<Rightarrow> int option) \<Rightarrow> (string \<Rightarrow> 'f option) \<Rightarrow> settings \<Rightarrow> string list
   \<Rightarrow> string list list \<Rightarrow> 'f tables \<Rightarrow> nat list \<Rightarrow> error + 'f tables" where
  "arrange py_int py_float self header rows t [] = Inr t"
| "arrange py_int py_float self header rows t (i # indices) =
     (case arrange_column py_int py_float self header rows t i of
        Inl e \<Rightarrow> Inl e
      | Inr t' \<Rightarrow> arrange py_int py_float self header rows t' indices)"

text \<open>
  Lines 423 to 426, \<^verbatim>\<open>for image in images.keys()\<close>: the first image without a
  \<open>FILE_NAME\<close> entry raises.
\<close>

fun check_images :: "(string \<times> (string \<times> string list) list) list \<Rightarrow> error option" where
  "check_images [] = None"
| "check_images ((image_name, d) # ims) =
     (if map_of d FILE_NAME = None then Some (ValueError_no_file_name image_name)
      else check_images ims)"

text \<open>
  A call of \<^verbatim>\<open>image_set_list.get_image_set\<close>, with a dictionary of keys or with a
  number. The unit list itself belongs to the pipeline; the model records the calls.
\<close>

datatype 'f request = By_key "(string \<times> 'f scalar) list" | By_number nat

text \<open>
  Lines 433 to 443: the key of row \<open>i\<close>, one entry per key of \<open>metadata\<close>. The
  conversions through \<^verbatim>\<open>str\<close>, \<^verbatim>\<open>int\<close> and \<^verbatim>\<open>float\<close> turn a numpy scalar into the
  Python value it holds.
\<close>

fun make_key :: "(string \<times> 'f column) list \<Rightarrow> nat \<Rightarrow> error + (string \<times> 'f scalar) list" where
  "make_key [] i = Inr []"
| "make_key ((k, c) # md) i =
     (case column_getitem c (int i) of
        Inl e \<Rightarrow> Inl e
      | Inr v \<Rightarrow> (case make_key md i of Inl e \<Rightarrow> Inl e | Inr key \<Rightarrow> Inr ((k, v) # key)))"

definition get_image_set ::
  "(string \<times> 'f column) list \<Rightarrow> bool \<Rightarrow> nat \<Rightarrow> error + 'f request" where
  "get_image_set md use_key i =
     (if md \<noteq> [] \<and> use_key
      then (case make_key md i of Inl e \<Rightarrow> Inl e | Inr key \<Rightarrow> Inr (By_key key))
      else Inr (By_number i))"

text \<open>
  \<open>prepare_run\<close>, lines 349 to 451. \<open>in_batch_mode\<close> is \<^verbatim>\<open>pipeline.in_batch_mode()\<close>,
  \<open>associating_by_key\<close> is the attribute of the image set list (\<open>None\<close>, \<open>True\<close> or
  \<open>False\<close>). The result is the list of the calls of \<^verbatim>\<open>get_image_set\<close> and the
  dictionary stored in \<^verbatim>\<open>legacy_fields\<close>; in batch mode nothing is called or stored.
\<close>

definition prepare_run ::
  "(string \<Rightarrow> int option) \<Rightarrow> (string \<Rightarrow> 'f option) \<Rightarrow> settings \<Rightarrow> bool \<Rightarrow> filesystem
   \<Rightarrow> bool option \<Rightarrow> error + ('f request list \<times> (string \<times> 'f column) list option)" where
  "prepare_run py_int py_float self in_batch_mode fs associating_by_key =
     (if in_batch_mode then
        (if fs (csv_path self) \<noteq> None then Inr ([], None)
         else Inl (ValueError_no_csv (csv_path self)))
      else
        (case fs (csv_path self) of
           None \<Rightarrow> Inl IOError
         | Some fd \<Rightarrow>
        (case reader_next (records fd) of
           Inl e \<Rightarrow> Inl e
         | Inr (first, reader) \<Rightarrow>
        (let header = map header_to_column first in
        (case read_rows self (length header) reader of
           Inl e \<Rightarrow> Inl e
         | Inr rows \<Rightarrow>
        (case check_rows (csv_file_name self) (length header) 0 rows of
           Some e \<Rightarrow> Inl e
         | None \<Rightarrow>
        (case arrange py_int py_float self header rows
                \<lparr>dictionary = [], metadata = [], images = []\<rparr> [0..<length header] of
           Inl e \<Rightarrow> Inl e
         | Inr t \<Rightarrow>
        (case check_images (images t) of
           Some e \<Rightarrow> Inl e
         | None \<Rightarrow>
        (let use_key = (associating_by_key \<noteq> Some False) in
        (case for_each (get_image_set (metadata t) use_key) [0..<length rows] of
           Inl e \<Rightarrow> Inl e
         | Inr requests \<Rightarrow> Inr (requests, Some (dictionary t))))))))))))"

subsection \<open>Example files\<close>

text \<open>
  Settings with the defaults of the module (no row range, rows 1 to 100000) for the
  file \<^verbatim>\<open>data.csv\<close>, and a file system that holds one file.
\<close>

definition load_settings :: "bool \<Rightarrow> settings" where
  "load_settings images_wanted =
     \<lparr>csv_path = ''data.csv'', csv_file_name = ''data.csv'', wants_images = images_wanted,
      wants_rows = False, row_range_min = 1, row_range_max = 100000\<rparr>"

definition rows_from_to :: "int \<Rightarrow> int \<Rightarrow> settings \<Rightarrow> settings" where
  "rows_from_to lo hi self = self\<lparr>wants_rows := True, row_range_min := lo, row_range_max := hi\<rparr>"

definition one_file :: "csv_item list \<Rightarrow> filesystem" where
  "one_file items path =
     (if path = ''data.csv'' then Some \<lparr>st_ctime = 1, records = items\<rparr> else None)"

text \<open>A header and five data rows.\<close>

definition five_rows :: "csv_item list" where
  "five_rows = [Row [''N''], Row [''10''], Row [''20''], Row [''30''], Row [''40''], Row [''50'']]"


text \<open>A header of four fields, a good row and a row of three fields.\<close>

definition short_row_file :: "csv_item list" where
  "short_row_file =
     [Row [''A'', ''B'', ''C'', ''D''], Row [''1'', ''2'', ''3'', ''4''], Row [''x'', ''y'', ''z'']]"

text \<open>A header of two fields, two good rows and a third row of one field.\<close>

definition short_third_row_file :: "csv_item list" where
  "short_third_row_file =
     [Row [''A'', ''B''], Row [''1'', ''2''], Row [''3'', ''4''], Row [''5'']]"


text \<open>
  Two views of the \<open>images\<close> dictionary, for the proofs: the image has a \<open>FILE_NAME\<close>
  entry; the image is a key.
\<close>

definition has_file :: "'f tables \<Rightarrow> string \<Rightarrow> bool" where
  "has_file t m = (case map_of (images t) m of None \<Rightarrow> False | Some d \<Rightarrow> map_of d FILE_NAME \<noteq> None)"

definition known :: "'f tables \<Rightarrow> string \<Rightarrow> bool" where
  "known t m = (map_of (images t) m \<noteq> None)"

text \<open>A path-name column for the image DAPI and no file-name column.\<close>

definition path_only_file :: "csv_item list" where
  "path_only_file = [Row [''Image_PathName_DAPI''], Row [''2009-07-08'']]"

text \<open>A metadata column and a data column, two rows.\<close>

definition plate_file :: "csv_item list" where
  "plate_file = [Row [''Metadata_Plate'', ''Dose''], Row [''P1'', ''750''], Row [''P2'', ''2750'']]"

text \<open>
  \<open>run\<close>, lines 511 to 534: find the row of the current image set in \<open>table\<close> (the
  \<^verbatim>\<open>dictionary\<close> stored by \<open>prepare_run\<close>) and publish that
  row of every column as an image measurement. \<open>image_set_keys\<close> is
  \<^verbatim>\<open>workspace.image_set.keys\<close>, \<open>image_set_number\<close> is
  \<^verbatim>\<open>workspace.measurements.image_set_number\<close>, and \<open>ne\<close> is the comparison \<^verbatim>\<open>!=\<close> of a
  value of a column with a value of a key. The result lists the calls of
  \<^verbatim>\<open>add_image_measurement\<close>. The digests of the pixel data and the display (lines 535
  to 547) belong to the image provider and the user interface and are left out.

  \<open>match_row\<close> is the inner loop over the keys for one \<open>index\<close>; it returns the flag
  \<^verbatim>\<open>failure\<close>.
\<close>

fun match_row ::
  "('f scalar \<Rightarrow> 'f scalar \<Rightarrow> bool) \<Rightarrow> (string \<times> 'f column) list \<Rightarrow> int
   \<Rightarrow> (string \<times> 'f scalar) list \<Rightarrow> error + bool" where
  "match_row ne table index [] = Inr False"
| "match_row ne table index ((key, v) # keys) =
     (let md_key = ''Metadata_'' @ key in
      case map_of table md_key of
        None \<Rightarrow> Inl (KeyError md_key)
      | Some column \<Rightarrow>
          (case column_getitem column index of
             Inl e \<Rightarrow> Inl e
           | Inr x \<Rightarrow> if ne x v then Inr True else match_row ne table index keys))"

text \<open>
  The loop \<^verbatim>\<open>for index in range(...)\<close>, which stops at the first row without a
  failure. The last argument is the value of \<open>index\<close> so far, \<open>None\<close> while it is
  unbound; it is what the loop leaves behind when it never stops early.
\<close>

fun find_row ::
  "('f scalar \<Rightarrow> 'f scalar \<Rightarrow> bool) \<Rightarrow> (string \<times> 'f column) list
   \<Rightarrow> (string \<times> 'f scalar) list \<Rightarrow> nat list \<Rightarrow> int option \<Rightarrow> error + int option" where
  "find_row ne table image_set_keys [] index = Inr index"
| "find_row ne table image_set_keys (i # indices) index =
     (case match_row ne table (int i) image_set_keys of
        Inl e \<Rightarrow> Inl e
      | Inr failure \<Rightarrow>
          if \<not> failure then Inr (Some (int i))
          else find_row ne table image_set_keys indices (Some (int i)))"

text \<open>
  \<^verbatim>\<open>len(image_set_keys.keys()) > 1 or image_set_keys.keys()[0] != 'number'\<close>
\<close>

definition has_metadata_keys :: "(string \<times> 'f scalar) list \<Rightarrow> error + bool" where
  "has_metadata_keys image_set_keys =
     (if 1 < length image_set_keys then Inr True
      else (case image_set_keys of
              [] \<Rightarrow> Inl IndexError
            | (key, v) # keys \<Rightarrow> Inr (key \<noteq> ''number'')))"

text \<open>The body of the loop of lines 531 to 534.\<close>

definition publish ::
  "int option \<Rightarrow> string \<times> 'f column \<Rightarrow> error + (string \<times> 'f scalar)" where
  "publish index entry =
     (case index of
        None \<Rightarrow> Inl UnboundLocalError
      | Some i \<Rightarrow>
          (case column_getitem (snd entry) i of
             Inl e \<Rightarrow> Inl e
           | Inr v \<Rightarrow> Inr (fst entry, v)))"

definition run ::
  "('f scalar \<Rightarrow> 'f scalar \<Rightarrow> bool) \<Rightarrow> (string \<times> 'f column) list
   \<Rightarrow> (string \<times> 'f scalar) list \<Rightarrow> int \<Rightarrow> error + (string \<times> 'f scalar) list" where
  "run ne table image_set_keys image_set_number =
     (case has_metadata_keys image_set_keys of
        Inl e \<Rightarrow> Inl e
      | Inr True \<Rightarrow>
          (case table of
             [] \<Rightarrow> Inl IndexError
           | (feature_name, column) # entries \<Rightarrow>
               (case find_row ne table image_set_keys [0..<column_len column] None of
                  Inl e \<Rightarrow> Inl e
                | Inr index \<Rightarrow> for_each (publish index) table))
      | Inr False \<Rightarrow> for_each (publish (Some (image_set_number - 1))) table)"

text \<open>The table that \<open>prepare_run\<close> stores for \<open>plate_file\<close>.\<close>

definition plate_table :: "(string \<times> rat column) list" where
  "plate_table = [(''Metadata_Plate'', StrColumn [''P1'', ''P2'']),
                  (''Dose'', IntColumn [750, 2750])]"

text \<open>
  Modelled from the spec: the constants \<^verbatim>\<open>COLTYPE_INTEGER\<close>, \<^verbatim>\<open>COLTYPE_FLOAT\<close> and
  \<^verbatim>\<open>COLTYPE_VARCHAR_FORMAT\<close> of \<^verbatim>\<open>cellprofiler.measurements\<close>, which are not among
  the sources. The spec names an integer, a float and a bounded string storage type;
  \<open>COLTYPE_VARCHAR n\<close> is \<^verbatim>\<open>COLTYPE_VARCHAR_FORMAT % n\<close>. A measurement column is the
  triple of object name, feature name and type.
\<close>

datatype coltype = COLTYPE_INTEGER | COLTYPE_FLOAT | COLTYPE_VARCHAR nat

type_synonym measurement_column = "string \<times> string \<times> coltype"

text \<open>
  An entry of the global \<^verbatim>\<open>header_cache\<close>, a dictionary with the key \<^verbatim>\<open>ctime\<close> and,
  once they are known, \<^verbatim>\<open>header\<close> and \<^verbatim>\<open>measurement_columns\<close> (the fields
  \<open>cached_header\<close> and \<open>cached_columns\<close>). The cache maps the path
  of a file to its entry. The functions that use the cache return the new cache
  beside their result, also when they raise.
\<close>

record cache_entry =
  ctime :: int
  cached_header :: "string list option"
  cached_columns :: "measurement_column list option"

type_synonym header_cache = "string \<Rightarrow> cache_entry option"

text \<open>
  \<^verbatim>\<open>
  entry = header_cache.get(self.csv_path, dict(ctime=0))
  ctime = os.stat(self.csv_path).st_ctime
  if ctime > entry["ctime"]:
      entry = header_cache[self.csv_path] = {}
      entry["ctime"] = ctime
  return entry
  \<close>
  The entry returned is the object in the cache, unless the path has no entry and
  the change time of the file is not positive: then it is a dictionary of its own.
\<close>

definition get_cache_info ::
  "settings \<Rightarrow> filesystem \<Rightarrow> header_cache \<Rightarrow> header_cache \<times> (error + cache_entry)" where
  "get_cache_info self fs cache =
     (let entry = (case cache (csv_path self) of
                     None \<Rightarrow> \<lparr>ctime = 0, cached_header = None, cached_columns = None\<rparr>
                   | Some e \<Rightarrow> e)
      in case fs (csv_path self) of
           None \<Rightarrow> (cache, Inl OSError)
         | Some fd \<Rightarrow>
             if ctime entry < st_ctime fd then
               (let fresh = \<lparr>ctime = st_ctime fd, cached_header = None, cached_columns = None\<rparr>
                in (cache(csv_path self \<mapsto> fresh), Inr fresh))
             else (cache, Inr entry))"

text \<open>
  \<^verbatim>\<open>entry["header"] = ...\<close> and \<^verbatim>\<open>entry["measurement_columns"] = ...\<close> on the entry that
  \<open>get_cache_info\<close> returned: an assignment to the object in the cache, if the path
  has one.
\<close>

definition set_header :: "string list \<Rightarrow> string \<Rightarrow> header_cache \<Rightarrow> header_cache" where
  "set_header h path cache =
     (case cache path of None \<Rightarrow> cache | Some e \<Rightarrow> cache(path \<mapsto> e\<lparr>cached_header := Some h\<rparr>))"

definition set_measurement_columns ::
  "measurement_column list \<Rightarrow> string \<Rightarrow> header_cache \<Rightarrow> header_cache" where
  "set_measurement_columns cols path cache =
     (case cache path of
        None \<Rightarrow> cache
      | Some e \<Rightarrow> cache(path \<mapsto> e\<lparr>cached_columns := Some cols\<rparr>))"

text \<open>\<^verbatim>\<open>open(self.csv_path, 'rb')\<close>, \<^verbatim>\<open>csv.reader(fd)\<close> and \<^verbatim>\<open>reader.next()\<close>\<close>

definition read_first_record ::
  "settings \<Rightarrow> filesystem \<Rightarrow> error + (string list \<times> csv_item list)" where
  "read_first_record self fs =
     (case fs (csv_path self) of None \<Rightarrow> Inl IOError | Some fd \<Rightarrow> reader_next (records fd))"

definition get_header ::
  "settings \<Rightarrow> filesystem \<Rightarrow> header_cache \<Rightarrow> header_cache \<times> (error + string list)" where
  "get_header self fs cache =
     (case get_cache_info self fs cache of
        (cache1, Inl e) \<Rightarrow> (cache1, Inl e)
      | (cache1, Inr entry) \<Rightarrow>
          (case cached_header entry of
             Some h \<Rightarrow> (cache1, Inr h)
           | None \<Rightarrow>
               (case read_first_record self fs of
                  Inl e \<Rightarrow> (cache1, Inl e)
                | Inr (first, reader) \<Rightarrow>
                    (let h = map header_to_column first
                     in (set_header h (csv_path self) cache1, Inr h)))))"

text \<open>
  \<open>other_providers\<close>, lines 337 to 347: the image names of the file-name columns; any
  exception gives the empty list.
\<close>

definition other_providers ::
  "settings \<Rightarrow> filesystem \<Rightarrow> header_cache \<Rightarrow> string \<Rightarrow> header_cache \<times> string list" where
  "other_providers self fs cache group_name =
     (if group_name = ''imagegroup'' \<and> wants_images self then
        (case get_header self fs cache of
           (cache1, Inl e) \<Rightarrow> (cache1, [])
         | (cache1, Inr h) \<Rightarrow>
             (case for_each get_image_name (filter is_file_name_feature h) of
                Inl e \<Rightarrow> (cache1, [])
              | Inr names \<Rightarrow> (cache1, names)))
      else (cache, []))"

text \<open>
  \<open>get_categories\<close> and \<open>get_measurements\<close>, lines 611 to 629. \<^verbatim>\<open>x.split('_')\<close> is never
  empty, so \<^verbatim>\<open>x.split('_')[0]\<close> is its head.
\<close>

definition get_categories ::
  "settings \<Rightarrow> filesystem \<Rightarrow> header_cache \<Rightarrow> string \<Rightarrow> header_cache \<times> string list" where
  "get_categories self fs cache object_name =
     (if object_name \<noteq> IMAGE then (cache, [])
      else (case get_header self fs cache of
              (cache1, Inl e) \<Rightarrow> (cache1, [])
            | (cache1, Inr h) \<Rightarrow> (cache1, map (\<lambda>x. hd (split CHR ''_'' x)) h)))"

definition get_measurements ::
  "settings \<Rightarrow> filesystem \<Rightarrow> header_cache \<Rightarrow> string \<Rightarrow> string
   \<Rightarrow> header_cache \<times> string list" where
  "get_measurements self fs cache object_name category =
     (if object_name \<noteq> IMAGE then (cache, [])
      else (case get_header self fs cache of
              (cache1, Inl e) \<Rightarrow> (cache1, [])
            | (cache1, Inr h) \<Rightarrow>
                (cache1, map (\<lambda>x. join ''_'' (tl (split CHR ''_'' x)))
                           (filter (\<lambda>x. hd (split CHR ''_'' x) = category) h))))"

text \<open>
  The body of the loop over the fields of a row in \<open>get_measurement_columns\<close>, lines
  581 to 601, for the field at \<open>index\<close>. \<open>len_field\<close> is computed as in the source, which
  tests the setting \<^verbatim>\<open>self.wants_images\<close> itself; nothing reads the variable afterwards.
  \<open>path_name_length\<close> is \<^verbatim>\<open>cpmeas.PATH_NAME_LENGTH\<close>. \<^verbatim>\<open>coltypes[index]\<close> raises
  \<^verbatim>\<open>IndexError\<close> when the row is longer than the header.
\<close>

definition scan_field ::
  "(string \<Rightarrow> int option) \<Rightarrow> (string \<Rightarrow> 'f option) \<Rightarrow> nat \<Rightarrow> settings
   \<Rightarrow> coltype list \<times> nat list \<Rightarrow> string \<Rightarrow> nat \<Rightarrow> error + (coltype list \<times> nat list)" where
  "scan_field py_int py_float path_name_length self state field index =
     (let coltypes = fst state; collen = snd state;
          len_field = (if startswith field PATH_NAME \<and> wants_images self
                       then max path_name_length (length field + PATH_PADDING)
                       else length field)
      in if length coltypes \<le> index then Inl IndexError
         else if coltypes ! index = COLTYPE_INTEGER \<and> py_int field \<noteq> None
           then Inr (coltypes, collen)
         else
           (let coltypes1 = (if coltypes ! index = COLTYPE_INTEGER
                             then coltypes[index := COLTYPE_FLOAT] else coltypes)
            in if coltypes1 ! index = COLTYPE_FLOAT \<and> py_float field \<noteq> None
                 then Inr (coltypes1, collen)
               else
                 (let coltypes2 = (if coltypes1 ! index = COLTYPE_FLOAT
                                   then coltypes1[index := COLTYPE_VARCHAR (length field)]
                                   else coltypes1)
                  in if collen ! index < length field
                       then Inr (coltypes2[index := COLTYPE_VARCHAR (length field)],
                                 collen[index := length field])
                     else Inr (coltypes2, collen))))"

text \<open>\<^verbatim>\<open>for field,index in zip(row,range(len(row)))\<close>, from the index given.\<close>

fun scan_row ::
  "(string \<Rightarrow> int option) \<Rightarrow> (string \<Rightarrow> 'f option) \<Rightarrow> nat \<Rightarrow> settings
   \<Rightarrow> coltype list \<times> nat list \<Rightarrow> string list \<Rightarrow> nat \<Rightarrow> error + (coltype list \<times> nat list)" where
  "scan_row py_int py_float path_name_length self state [] index = Inr state"
| "scan_row py_int py_float path_name_length self state (field # row) index =
     (case scan_field py_int py_float path_name_length self state field index of
        Inl e \<Rightarrow> Inl e
      | Inr state' \<Rightarrow> scan_row py_int py_float path_name_length self state' row (Suc index))"

text \<open>\<^verbatim>\<open>for row in reader\<close>\<close>

fun scan_rows ::
  "(string \<Rightarrow> int option) \<Rightarrow> (string \<Rightarrow> 'f option) \<Rightarrow> nat \<Rightarrow> settings
   \<Rightarrow> coltype list \<times> nat list \<Rightarrow> csv_item list \<Rightarrow> error + (coltype list \<times> nat list)" where
  "scan_rows py_int py_float path_name_length self state [] = Inr state"
| "scan_rows py_int py_float path_name_length self state (Malformed # reader) = Inl CsvError"
| "scan_rows py_int py_float path_name_length self state (Row row # reader) =
     (case scan_row py_int py_float path_name_length self state row 0 of
        Inl e \<Rightarrow> Inl e
      | Inr state' \<Rightarrow> scan_rows py_int py_float path_name_length self state' reader)"

text \<open>
  \<open>get_measurement_columns\<close>, lines 563 to 609. The \<^verbatim>\<open>try\<close> block ends after the header
  is read: an exception raised in it gives the empty list, an exception raised by
  the scan of the rows propagates.
\<close>

definition get_measurement_columns ::
  "(string \<Rightarrow> int option) \<Rightarrow> (string \<Rightarrow> 'f option) \<Rightarrow> nat \<Rightarrow> settings \<Rightarrow> filesystem
   \<Rightarrow> header_cache \<Rightarrow> header_cache \<times> (error + measurement_column list)" where
  "get_measurement_columns py_int py_float path_name_length self fs cache =
     (case get_cache_info self fs cache of
        (cache1, Inl e) \<Rightarrow> (cache1, Inr [])
      | (cache1, Inr entry) \<Rightarrow>
          (case cached_columns entry of
             Some cols \<Rightarrow> (cache1, Inr cols)
           | None \<Rightarrow>
               (case read_first_record self fs of
                  Inl e \<Rightarrow> (set_measurement_columns [] (csv_path self) cache1, Inr [])
                | Inr (first, reader) \<Rightarrow>
                    (let h = map header_to_column first in
                     case scan_rows py_int py_float path_name_length self
                            (replicate (length h) COLTYPE_INTEGER, replicate (length h) 0)
                            reader of
                       Inl e \<Rightarrow> (cache1, Inl e)
                     | Inr state \<Rightarrow>
                         (case other_providers self fs cache1 ''imagegroup'' of
                            (cache2, image_names) \<Rightarrow>
                              (let result =
                                     map (\<lambda>(colname, coltype). (IMAGE, colname, coltype))
                                       (zip h (fst state))
                                     @ map (\<lambda>image_name.
                                         (IMAGE, ''MD5Digest_'' @ image_name, COLTYPE_VARCHAR 32))
                                       image_names
                               in (set_measurement_columns result (csv_path self) cache2,
                                   Inr result)))))))"

text \<open>
  A path-name column, a file-name column and a column of integers; a column that
  starts with a number and goes on with a word.
\<close>

definition image_file :: "csv_item list" where
  "image_file =
     [Row [''Image_PathName_DNA'', ''Image_FileName_DNA'', ''Count''],
      Row [''plates/p1'', ''a.tif'', ''12345''],
      Row [''plates/p22'', ''b.tif'', ''7'']]"

definition mixed_file :: "csv_item list" where
  "mixed_file = [Row [''Label''], Row [''12345''], Row [''a'']]"

text \<open>A file without a record, and a file whose second record cannot be parsed.\<close>

definition malformed_row_file :: "csv_item list" where
  "malformed_row_file = [Row [''A''], Malformed]"

definition long_row_file :: "csv_item list" where
  "long_row_file = [Row [''A''], Row [''1'', ''2'']]"

section \<open>Properties\<close>

subsection \<open>Header columns\<close>

lemma startswith_append [simp]: "startswith (p @ s) p"
  by (simp add: startswith_def)

lemma startswith_decompose: "startswith s p \<Longrightarrow> s = p @ drop (length p) s"
  by (metis append_take_drop_id startswith_def)

lemma header_to_column_cases:
  "header_to_column field =
     (if startswith field ''Image_PathName_'' \<or> startswith field ''Image_FileName_''
      then drop 6 field else field)"
  by (simp add: header_to_column_def IMAGE_def PATH_NAME_def FILE_NAME_def eval_nat_numeral)

lemma header_to_column_stripped:
  assumes "startswith field ''Image_PathName_'' \<or> startswith field ''Image_FileName_''"
  shows "\<not> startswith (drop 6 field) ''Image_PathName_''"
    and "\<not> startswith (drop 6 field) ''Image_FileName_''"
proof -
  from assms obtain rest where
    "field = ''Image_PathName_'' @ rest \<or> field = ''Image_FileName_'' @ rest"
    using startswith_decompose by blast
  then have "hd (drop 6 field) = CHR ''P'' \<or> hd (drop 6 field) = CHR ''F''"
    and "drop 6 field \<noteq> []"
    by auto
  then show "\<not> startswith (drop 6 field) ''Image_PathName_''"
    and "\<not> startswith (drop 6 field) ''Image_FileName_''"
    by (auto simp: startswith_def take_Suc)
qed

text \<open>
  C8. Header normalization is a total function (it is modelled without an error
  branch, because no step of the source can raise on a string) and it is idempotent.
  It maps \<^verbatim>\<open>Image_FileName_X\<close> to \<^verbatim>\<open>FileName_X\<close> and \<^verbatim>\<open>Image_PathName_X\<close> to
  \<^verbatim>\<open>PathName_X\<close> for every suffix \<open>X\<close>, and it leaves every name that starts with
  neither of the two prefixes unchanged, names starting with \<^verbatim>\<open>Metadata_\<close> among them.
\<close>

theorem header_to_column_idempotent_total:
  "header_to_column (header_to_column field) = header_to_column field
   \<and> header_to_column (''Image_FileName_'' @ X) = ''FileName_'' @ X
   \<and> header_to_column (''Image_PathName_'' @ X) = ''PathName_'' @ X
   \<and> header_to_column (''Metadata_'' @ X) = ''Metadata_'' @ X
   \<and> (\<not> startswith field ''Image_FileName_'' \<and> \<not> startswith field ''Image_PathName_''
        \<longrightarrow> header_to_column field = field)"
proof -
  have idem: "header_to_column (header_to_column field) = header_to_column field"
    using header_to_column_stripped [of field]
    by (simp add: header_to_column_cases)
  have fname: "header_to_column (''Image_FileName_'' @ X) = ''FileName_'' @ X"
    by (simp add: header_to_column_cases startswith_def)
  have pname: "header_to_column (''Image_PathName_'' @ X) = ''PathName_'' @ X"
    by (simp add: header_to_column_cases startswith_def)
  have meta: "header_to_column (''Metadata_'' @ X) = ''Metadata_'' @ X"
    by (simp add: header_to_column_cases startswith_def)
  have other: "\<not> startswith field ''Image_FileName_'' \<and> \<not> startswith field ''Image_PathName_''
        \<longrightarrow> header_to_column field = field"
    by (simp add: header_to_column_cases)
  from idem fname pname meta other show ?thesis by blast
qed

theorem header_to_column_idempotent_total_witness:
  "header_to_column (header_to_column ''Image_FileName_CY3'') = ''FileName_CY3''
   \<and> header_to_column ''Image_PathName_CY3'' = ''PathName_CY3''
   \<and> header_to_column ''Metadata_Plate'' = ''Metadata_Plate''
   \<and> \<not> startswith ''Titration_NaCl_uM'' ''Image_FileName_''
   \<and> \<not> startswith ''Titration_NaCl_uM'' ''Image_PathName_''
   \<and> header_to_column ''Titration_NaCl_uM'' = ''Titration_NaCl_uM''"
proof -
  have a: "\<not> startswith ''Titration_NaCl_uM'' ''Image_FileName_''"
    and b: "\<not> startswith ''Titration_NaCl_uM'' ''Image_PathName_''"
    by (simp_all add: startswith_def)
  have c: "header_to_column ''Titration_NaCl_uM'' = ''Titration_NaCl_uM''"
    using header_to_column_idempotent_total [of "''Titration_NaCl_uM''" "''CY3''"] a b
    by blast
  have t: "header_to_column (header_to_column ''Image_FileName_CY3'')
             = header_to_column ''Image_FileName_CY3''"
    and u: "header_to_column (''Image_FileName_'' @ ''CY3'') = ''FileName_'' @ ''CY3''"
    and v: "header_to_column (''Image_PathName_'' @ ''CY3'') = ''PathName_'' @ ''CY3''"
    using header_to_column_idempotent_total [of "''Image_FileName_CY3''" "''CY3''"]
    by blast+
  have d: "header_to_column (header_to_column ''Image_FileName_CY3'') = ''FileName_CY3''"
    using t u by simp
  have e: "header_to_column ''Image_PathName_CY3'' = ''PathName_CY3''"
    using v by simp
  have f: "header_to_column ''Metadata_Plate'' = ''Metadata_Plate''"
    using header_to_column_idempotent_total [of "''Metadata_Plate''" "''Plate''"]
    by simp
  from a b c d e f show ?thesis by blast
qed

lemma get_image_name_make:
  "get_image_name (make_file_name_feature s) = Inr s"
  "get_image_name (make_path_name_feature s) = Inr s"
  by (simp_all add: get_image_name_def make_file_name_feature_def make_path_name_feature_def
      is_path_name_feature_def is_file_name_feature_def startswith_def
      PATH_NAME_def FILE_NAME_def)

text \<open>
  C9. Round trip between image names and feature names: for every image name \<open>s\<close>,
  \<^verbatim>\<open>get_image_name(make_file_name_feature(s))\<close> returns \<open>s\<close>, and so does
  \<^verbatim>\<open>get_image_name(make_path_name_feature(s))\<close>; neither raises.
\<close>

theorem get_image_name_roundtrip:
  "get_image_name (make_file_name_feature s) = Inr s
   \<and> get_image_name (make_path_name_feature s) = Inr s"
  by (simp add: get_image_name_def make_file_name_feature_def make_path_name_feature_def
      is_path_name_feature_def is_file_name_feature_def startswith_def
      PATH_NAME_def FILE_NAME_def)

subsection \<open>The type inferrer\<close>

lemma cast_all_eq:
  "cast_all f xs =
     (if \<forall>x\<in>set xs. f x \<noteq> None then Some (map (\<lambda>x. the (f x)) xs) else None)"
  by (induction xs) (auto split: option.splits)

text \<open>
  C1. For every sequence of string cells: if every cell parses as an integer, the
  result of \<open>best_cast\<close> is the sequence of those integers; otherwise, if every cell
  parses as a float, it is the sequence of those floats; otherwise it is the
  original sequence of strings. Integer has priority over float, and one cell that
  is not numeric makes the whole column a string column.
\<close>

theorem best_cast_int_float_str:
  "best_cast py_int py_float sequence =
     (if \<forall>x\<in>set sequence. py_int x \<noteq> None
        then IntColumn (map (\<lambda>x. the (py_int x)) sequence)
      else if \<forall>x\<in>set sequence. py_float x \<noteq> None
        then FloatColumn (map (\<lambda>x. the (py_float x)) sequence)
      else StrColumn sequence)"
  unfolding best_cast_def cast_all_eq by simp

lemmas decimal_simps =
  decimal_int_def decimal_float_def signed_def unsigned_int_def unsigned_float_def
  digit_value_def

lemma decimal_int_examples:
  "decimal_int ''1'' = Some 1" "decimal_int ''2'' = Some 2" "decimal_int ''3'' = Some 3"
  "decimal_int ''2.5'' = None" "decimal_int ''a'' = None"
  by (simp_all add: decimal_simps)

lemma decimal_float_examples:
  "decimal_float ''1'' = Some 1" "decimal_float ''3'' = Some 3"
  "decimal_float ''2.5'' = Some (5 / 2)" "decimal_float ''a'' = None"
  by (simp_all add: decimal_simps)

theorem best_cast_int_float_str_witness:
  "best_cast decimal_int decimal_float [''1'', ''2'', ''3''] = IntColumn [1, 2, 3]
   \<and> best_cast decimal_int decimal_float [''1'', ''2.5'', ''3''] = FloatColumn [1, 5 / 2, 3]
   \<and> best_cast decimal_int decimal_float [''1'', ''a'', ''3''] = StrColumn [''1'', ''a'', ''3'']"
proof -
  have a: "best_cast decimal_int decimal_float [''1'', ''2'', ''3''] = IntColumn [1, 2, 3]"
  proof -
    have "\<forall>x\<in>set [''1'', ''2'', ''3'']. decimal_int x \<noteq> None"
      by (simp add: decimal_int_examples)
    moreover have "map (\<lambda>x. the (decimal_int x)) [''1'', ''2'', ''3''] = [1, 2, 3]"
      by (simp add: decimal_int_examples)
    ultimately show ?thesis
      using best_cast_int_float_str [of decimal_int decimal_float "[''1'', ''2'', ''3'']"]
      by presburger
  qed
  have b: "best_cast decimal_int decimal_float [''1'', ''2.5'', ''3'']
             = FloatColumn [1, 5 / 2, 3]"
  proof -
    have "\<not> (\<forall>x\<in>set [''1'', ''2.5'', ''3'']. decimal_int x \<noteq> None)"
      by (simp add: decimal_int_examples)
    moreover have "\<forall>x\<in>set [''1'', ''2.5'', ''3'']. decimal_float x \<noteq> None"
      by (simp add: decimal_float_examples del: not_None_eq)
    moreover have "map (\<lambda>x. the (decimal_float x)) [''1'', ''2.5'', ''3''] = [1, 5 / 2, 3]"
      by (simp add: decimal_float_examples)
    ultimately show ?thesis
      using best_cast_int_float_str [of decimal_int decimal_float "[''1'', ''2.5'', ''3'']"]
      by presburger
  qed
  have c: "best_cast decimal_int decimal_float [''1'', ''a'', ''3'']
             = StrColumn [''1'', ''a'', ''3'']"
  proof -
    have "\<not> (\<forall>x\<in>set [''1'', ''a'', ''3'']. decimal_int x \<noteq> None)"
      by (simp add: decimal_int_examples)
    moreover have "\<not> (\<forall>x\<in>set [''1'', ''a'', ''3'']. decimal_float x \<noteq> None)"
      by (simp add: decimal_float_examples)
    ultimately show ?thesis
      using best_cast_int_float_str [of decimal_int decimal_float "[''1'', ''a'', ''3'']"]
      by presburger
  qed
  from a b c show ?thesis by blast
qed

subsection \<open>Reading the rows\<close>

lemma skip_rows_map_Row:
  "k \<le> length rows \<Longrightarrow> skip_rows k (map Row rows) = Inr (map Row (drop k rows))"
proof (induction k arbitrary: rows)
  case 0
  then show ?case by simp
next
  case (Suc k)
  then show ?case by (cases rows) auto
qed

lemma read_all_map_Row: "read_all (map Row rows) = Inr rows"
  by (induction rows) auto

lemma read_range_map_Row:
  "i \<le> range_max - 1 \<Longrightarrow> \<forall>row\<in>set (take (nat (range_max - i)) rows). length row = n
   \<Longrightarrow> read_range n range_max i (map Row rows) acc = Inr (acc @ take (nat (range_max - i)) rows)"
proof (induction rows arbitrary: i acc)
  case Nil
  then show ?case by simp
next
  case (Cons row rows)
  have pos: "nat (range_max - i) = Suc (nat (range_max - i - 1))"
    using Cons.prems(1) by linarith
  show ?case
  proof (cases "i = range_max - 1")
    case True
    with Cons.prems pos show ?thesis by simp
  next
    case False
    with Cons.prems(1) have le: "i + 1 \<le> range_max - 1" by simp
    have "\<forall>r\<in>set (take (nat (range_max - (i + 1))) rows). length r = n"
      using Cons.prems(2) pos by (simp add: algebra_simps)
    from Cons.IH [OF le this, of "acc @ [row]"] Cons.prems(2) pos False
    show ?thesis by (simp add: algebra_simps)
  qed
qed

text \<open>
  From the second row on, a row range is read as it was requested: rows \<open>lo\<close> to
  \<open>hi\<close>, numbered from 1 without the header.
\<close>

lemma read_rows_from_second_row:
  assumes "wants_rows self" and "2 \<le> row_range_min self"
    and "row_range_min self \<le> row_range_max self"
    and "row_range_max self \<le> int (length rows)"
    and "\<forall>row\<in>set rows. length row = n"
  shows "read_rows self n (map Row rows) =
           Inr (take (nat (row_range_max self - row_range_min self + 1))
                  (drop (nat (row_range_min self - 1)) rows))"
proof -
  have skip: "skip_rows (nat (row_range_min self - 1)) (map Row rows)
                = Inr (map Row (drop (nat (row_range_min self - 1)) rows))"
    using assms(2-4) by (intro skip_rows_map_Row) linarith
  have lens: "\<forall>row\<in>set (take (nat (row_range_max self - (row_range_min self - 1)))
                 (drop (nat (row_range_min self - 1)) rows)). length row = n"
    using assms(5) by (meson in_set_dropD in_set_takeD)
  have "read_range n (row_range_max self) (row_range_min self - 1)
          (map Row (drop (nat (row_range_min self - 1)) rows)) []
        = Inr ([] @ take (nat (row_range_max self - (row_range_min self - 1)))
                 (drop (nat (row_range_min self - 1)) rows))"
    using assms(3) lens by (intro read_range_map_Row) simp_all
  moreover have "row_range_max self - (row_range_min self - 1)
                   = row_range_max self - row_range_min self + 1"
    by simp
  ultimately show ?thesis
    using assms(1,2) skip by (simp add: read_rows_def Let_def)
qed

text \<open>
  C2. The claim: for a file with \<open>n\<close> data rows and a requested range with
  \<open>1 \<le> min \<le> max \<le> n\<close>, exactly the rows \<open>min\<close> to \<open>max\<close> are loaded. The code does
  so when \<open>2 \<le> min\<close> (\<open>read_rows_from_second_row\<close>). When \<open>min = 1\<close> the loop that skips
  rows does not run, \<open>i\<close> stays \<open>0\<close> and \<^verbatim>\<open>i += 1\<close> makes it \<open>1\<close> for the first row, one
  more than that row's index: of the five rows of the example the range 1 to 3 loads the
  rows 1 and 2 only, and the range 1 to 1 loads all five.
\<close>

theorem prepare_run_row_range_from_first_row:
  "prepare_run decimal_int decimal_float (rows_from_to 1 3 (load_settings False)) False
     (one_file five_rows) None
   = Inr ([By_number 0, By_number 1], Some [(''N'', IntColumn [10, 20])])
   \<and> prepare_run decimal_int decimal_float (rows_from_to 1 1 (load_settings False)) False
     (one_file five_rows) None
   = Inr ([By_number 0, By_number 1, By_number 2, By_number 3, By_number 4],
          Some [(''N'', IntColumn [10, 20, 30, 40, 50])])"
  by code_simp

subsection \<open>Rows with the wrong number of fields\<close>

lemma check_rows_first_bad:
  "i < length rows \<Longrightarrow> length (rows ! i) \<noteq> n \<Longrightarrow> \<forall>j<i. length (rows ! j) = n
   \<Longrightarrow> check_rows f n k rows
       = Some (ValueError_line (k + i + 2) f (join '','' (rows ! i)) (length (rows ! i)) n)"
proof (induction rows arbitrary: i k)
  case Nil
  then show ?case by simp
next
  case (Cons row rows)
  show ?case
  proof (cases i)
    case 0
    with Cons.prems show ?thesis by simp
  next
    case (Suc i')
    with Cons.prems have "length row = n" by auto
    moreover have "check_rows f n (Suc k) rows
       = Some (ValueError_line (Suc k + i' + 2) f (join '','' (rows ! i')) (length (rows ! i')) n)"
      using Cons.prems Suc by (intro Cons.IH) auto
    ultimately show ?thesis using Suc by simp
  qed
qed

lemma read_range_first_bad:
  "i < length rows \<Longrightarrow> length (rows ! i) \<noteq> n \<Longrightarrow> \<forall>j<i. length (rows ! j) = n
   \<Longrightarrow> i0 + int i \<le> range_max - 1
   \<Longrightarrow> read_range n range_max i0 (map Row rows) acc
       = Inl (ValueError_row (i0 + int i) (length (rows ! i)) n)"
proof (induction rows arbitrary: i i0 acc)
  case Nil
  then show ?case by simp
next
  case (Cons row rows)
  show ?case
  proof (cases i)
    case 0
    with Cons.prems show ?thesis by simp
  next
    case (Suc i')
    with Cons.prems have len: "length row = n" by auto
    from Cons.prems(4) Suc have ne: "i0 \<noteq> range_max - 1" by simp
    have "read_range n range_max (i0 + 1) (map Row rows) (acc @ [row])
       = Inl (ValueError_row ((i0 + 1) + int i') (length (rows ! i')) n)"
      using Cons.prems Suc by (intro Cons.IH) auto
    then show ?thesis using Suc len ne by (simp add: algebra_simps)
  qed
qed

lemma arrange_column_Inr:
  "\<exists>t'. arrange_column py_int py_float self header rows t i = Inr t'"
  by (simp add: arrange_column_def get_image_name_def Let_def)

lemma first_bad_from:
  fixes rows :: "'a list list"
  assumes "d \<le> i" and "length (rows ! i) \<noteq> n"
  shows "\<exists>j. d \<le> j \<and> j \<le> i \<and> length (rows ! j) \<noteq> n
             \<and> (\<forall>k. d \<le> k \<and> k < j \<longrightarrow> length (rows ! k) = n)"
proof -
  define j where "j = (LEAST j. d \<le> j \<and> length (rows ! j) \<noteq> n)"
  have ex: "d \<le> i \<and> length (rows ! i) \<noteq> n" using assms by simp
  have a: "d \<le> j \<and> length (rows ! j) \<noteq> n"
    unfolding j_def using ex by (rule LeastI)
  have b: "j \<le> i" unfolding j_def using ex by (rule Least_le)
  have c: "\<forall>k. d \<le> k \<and> k < j \<longrightarrow> length (rows ! k) = n"
  proof (intro allI impI)
    fix k assume k: "d \<le> k \<and> k < j"
    then have "k < (LEAST j. d \<le> j \<and> length (rows ! j) \<noteq> n)" by (simp add: j_def)
    then have "\<not> (d \<le> k \<and> length (rows ! k) \<noteq> n)" by (rule not_less_Least)
    with k show "length (rows ! k) = n" by simp
  qed
  from a b c show ?thesis by blast
qed

text \<open>
  C3, as amended. Let the file hold a header and data rows, and let the data row
  number \<open>i + 1\<close> (rows are numbered from 1, the header excluded) have a number of
  fields that differs from the header's. Outside batch mode, \<open>prepare_run\<close> raises, so
  that nothing is registered or stored, in each of these cases:

    \<^item> no row range is requested. The error is then the \<^verbatim>\<open>ValueError\<close> of lines 382 to
      390 for the first row \<open>j\<close> of the file with the wrong number of fields: it
      reports the line \<open>j + 2\<close> (the header is line 1), the file name, the fields of
      that row joined by commas, the number of fields found and the number expected;

    \<^item> a row range \<open>min\<close> to \<open>max\<close> with \<open>1 \<le> min\<close> is requested and the row is in it,
      \<open>min \<le> i + 1 \<le> max\<close>. The one case left out is the last row of a range that
      starts at row 1 and holds more than one row (\<open>min = 1\<close> and \<open>i + 1 = max \<ge> 2\<close>).

  Nothing is stated about a row outside the requested range, nor about the text of
  the error raised when a row range is requested.
\<close>

theorem prepare_run_wrong_field_count:
  assumes "fs (csv_path self) = Some fd" and "records fd = Row first # map Row rows"
    and "i < length rows" and "length (rows ! i) \<noteq> length first"
    and "wants_rows self \<longrightarrow>
           1 \<le> row_range_min self \<and> row_range_min self \<le> int i + 1
           \<and> int i + 1 \<le> row_range_max self
           \<and> (row_range_min self = 1 \<and> int i + 1 = row_range_max self \<longrightarrow> i = 0)"
  shows "(\<exists>e. prepare_run py_int py_float self False fs abk = Inl e)
       \<and> (\<not> wants_rows self \<longrightarrow>
            (\<exists>j\<le>i. length (rows ! j) \<noteq> length first
                \<and> (\<forall>k<j. length (rows ! k) = length first)
                \<and> prepare_run py_int py_float self False fs abk
                    = Inl (ValueError_line (j + 2) (csv_file_name self) (join '','' (rows ! j))
                             (length (rows ! j)) (length first))))"
proof (cases "wants_rows self")
  case False
  from first_bad_from [of 0 i rows "length first"] assms(4)
  obtain j where j: "j \<le> i" "length (rows ! j) \<noteq> length first"
    "\<forall>k<j. length (rows ! k) = length first" by auto
  from j(1) assms(3) have jl: "j < length rows" by simp
  have "check_rows (csv_file_name self) (length first) 0 rows
          = Some (ValueError_line (0 + j + 2) (csv_file_name self) (join '','' (rows ! j))
                    (length (rows ! j)) (length first))"
    using jl j(2,3) by (rule check_rows_first_bad)
  then have "prepare_run py_int py_float self False fs abk
              = Inl (ValueError_line (j + 2) (csv_file_name self) (join '','' (rows ! j))
                       (length (rows ! j)) (length first))"
    using assms(1,2) False
    by (simp add: prepare_run_def read_rows_def read_all_map_Row)
  with j show ?thesis by blast
next
  case True
  define d where "d = nat (row_range_min self - 1)"
  define i0 where "i0 = (if 0 < row_range_min self - 1 then row_range_min self - 1 - 1 else 0) + 1"
  from True assms(5) have range: "1 \<le> row_range_min self" "row_range_min self \<le> int i + 1"
    "int i + 1 \<le> row_range_max self"
    "row_range_min self = 1 \<and> int i + 1 = row_range_max self \<longrightarrow> i = 0" by auto
  then have d: "d \<le> i" "int d = row_range_min self - 1" by (auto simp: d_def)
  from first_bad_from [of d i rows "length first"] d(1) assms(4)
  obtain j where j: "d \<le> j" "j \<le> i" "length (rows ! j) \<noteq> length first"
    "\<forall>k. d \<le> k \<and> k < j \<longrightarrow> length (rows ! k) = length first" by auto
  from j(2) assms(3) have jl: "j < length rows" by simp
  have skip: "skip_rows d (map Row rows) = Inr (map Row (drop d rows))"
    using d(1) assms(3) by (intro skip_rows_map_Row) simp
  have rd: "\<exists>e. read_range (length first) (row_range_max self) i0 (map Row (drop d rows)) []
      = Inl e"
  proof (cases "j = d")
    case True
    with jl have "drop d rows = rows ! j # drop (Suc j) rows"
      by (simp add: Cons_nth_drop_Suc)
    with j(3) show ?thesis by simp
  next
    case False
    with j(1) have dj: "d < j" by simp
    have "read_range (length first) (row_range_max self) i0 (map Row (drop d rows)) []
      = Inl (ValueError_row (i0 + int (j - d))
               (length (drop d rows ! (j - d))) (length first))"
    proof (rule read_range_first_bad)
      show "j - d < length (drop d rows)" using j(1) jl by simp
      show "length (drop d rows ! (j - d)) \<noteq> length first" using j(1,3) jl by simp
      show "\<forall>k<j - d. length (drop d rows ! k) = length first"
      proof (intro allI impI)
        fix k assume "k < j - d"
        then have "d \<le> d + k \<and> d + k < j" by simp
        with j(4) have "length (rows ! (d + k)) = length first" by blast
        moreover have "d + k \<le> length rows" using \<open>k < j - d\<close> jl by simp
        ultimately show "length (drop d rows ! k) = length first" by simp
      qed
      show "i0 + int (j - d) \<le> row_range_max self - 1"
      proof (cases "row_range_min self = 1")
        case True
        then have "d = 0" "i0 = 1" by (simp_all add: d_def i0_def)
        moreover have "int j + 1 < row_range_max self"
          using range True j(2) dj by auto
        ultimately show ?thesis by simp
      next
        case False
        with range(1) have "i0 = row_range_min self - 1" by (simp add: i0_def)
        then show ?thesis using d j(1,2) range by simp
      qed
    qed
    then show ?thesis by blast
  qed
  then obtain e where
    "read_range (length first) (row_range_max self) i0 (map Row (drop d rows)) [] = Inl e"
    by blast
  then have "prepare_run py_int py_float self False fs abk = Inl e"
    using assms(1,2) True skip
    by (simp add: prepare_run_def read_rows_def Let_def d_def i0_def)
  with True show ?thesis by simp
qed

theorem prepare_run_wrong_field_count_witness:
  "prepare_run decimal_int decimal_float (load_settings False) False
     (one_file short_row_file) None
   = Inl (ValueError_line 3 ''data.csv'' ''x,y,z'' 3 4)
   \<and> (\<exists>e. prepare_run decimal_int decimal_float (rows_from_to 2 3 (load_settings False))
          False (one_file short_third_row_file) None = Inl e)
   \<and> (\<exists>e. prepare_run decimal_int decimal_float (rows_from_to 1 3 (load_settings False))
          False (one_file short_row_file) None = Inl e)"
proof -
  let ?rows = "[[''1'', ''2'', ''3'', ''4''], [''x'', ''y'', ''z'']]"
  let ?first = "[''A'', ''B'', ''C'', ''D'']"
  let ?fd = "\<lparr>st_ctime = 1, records = short_row_file\<rparr>"
  let ?self = "load_settings False"
  let ?run = "prepare_run decimal_int decimal_float ?self False (one_file short_row_file) None"
  have p2: "records ?fd = Row ?first # map Row ?rows"
    by (simp add: short_row_file_def)
  have p3: "1 < length ?rows" by simp
  have p4: "length (?rows ! 1) \<noteq> length ?first" by simp
  have a: "?run = Inl (ValueError_line 3 ''data.csv'' ''x,y,z'' 3 4)"
  proof -
    have p1: "one_file short_row_file (csv_path ?self) = Some ?fd"
      by (simp add: one_file_def load_settings_def)
    have nw: "\<not> wants_rows ?self" by (simp add: load_settings_def)
    then have p5: "wants_rows ?self \<longrightarrow>
           1 \<le> row_range_min ?self \<and> row_range_min ?self \<le> int 1 + 1
           \<and> int 1 + 1 \<le> row_range_max ?self
           \<and> (row_range_min ?self = 1 \<and> int 1 + 1 = row_range_max ?self \<longrightarrow> (1::nat) = 0)"
      by (rule notE [THEN impI])
    note t = prepare_run_wrong_field_count
      [where fs = "one_file short_row_file" and self = ?self
         and fd = ?fd and first = ?first and rows = ?rows
         and i = 1 and py_int = decimal_int and py_float = decimal_float and abk = None,
       OF p1 p2 p3 p4 p5, THEN conjunct2, rule_format, OF nw]
    then obtain j where j: "j \<le> 1" "length (?rows ! j) \<noteq> length ?first"
      "?run = Inl (ValueError_line (j + 2) (csv_file_name ?self)
                     (join '','' (?rows ! j)) (length (?rows ! j)) (length ?first))"
      by (elim exE conjE)
    from j(1) have "j = 0 \<or> j = 1" by (simp add: le_Suc_eq)
    then have "j = 1"
    proof
      assume "j = 0"
      with j(2) show ?thesis by simp
    qed
    with j(3) show ?thesis by (simp add: load_settings_def)
  qed
  have b: "\<exists>e. prepare_run decimal_int decimal_float (rows_from_to 2 3 (load_settings False))
          False (one_file short_third_row_file) None = Inl e"
  proof -
    let ?rows = "[[''1'', ''2''], [''3'', ''4''], [''5'']]"
    let ?first = "[''A'', ''B'']"
    let ?fd = "\<lparr>st_ctime = 1, records = short_third_row_file\<rparr>"
    let ?self = "rows_from_to 2 3 (load_settings False)"
    have p1: "one_file short_third_row_file (csv_path ?self) = Some ?fd"
      by (simp add: one_file_def load_settings_def rows_from_to_def)
    have p2: "records ?fd = Row ?first # map Row ?rows"
      by (simp add: short_third_row_file_def)
    have p3: "2 < length ?rows" by simp
    have p4: "length (?rows ! 2) \<noteq> length ?first" by simp
    have p5: "wants_rows ?self \<longrightarrow>
           1 \<le> row_range_min ?self \<and> row_range_min ?self \<le> int 2 + 1
           \<and> int 2 + 1 \<le> row_range_max ?self
           \<and> (row_range_min ?self = 1 \<and> int 2 + 1 = row_range_max ?self \<longrightarrow> (2::nat) = 0)"
      by (simp add: load_settings_def rows_from_to_def)
    note t = prepare_run_wrong_field_count
      [where fs = "one_file short_third_row_file" and self = ?self
         and fd = ?fd and first = ?first and rows = ?rows
         and i = 2 and py_int = decimal_int and py_float = decimal_float and abk = None,
       OF p1 p2 p3 p4 p5]
    from t show ?thesis by (rule conjunct1)
  qed
  have c: "\<exists>e. prepare_run decimal_int decimal_float (rows_from_to 1 3 (load_settings False))
          False (one_file short_row_file) None = Inl e"
  proof -
    let ?self = "rows_from_to 1 3 (load_settings False)"
    have p1: "one_file short_row_file (csv_path ?self) = Some ?fd"
      by (simp add: one_file_def load_settings_def rows_from_to_def)
    have p5: "wants_rows ?self \<longrightarrow>
           1 \<le> row_range_min ?self \<and> row_range_min ?self \<le> int 1 + 1
           \<and> int 1 + 1 \<le> row_range_max ?self
           \<and> (row_range_min ?self = 1 \<and> int 1 + 1 = row_range_max ?self \<longrightarrow> (1::nat) = 0)"
      by (simp add: load_settings_def rows_from_to_def)
    note t = prepare_run_wrong_field_count
      [where fs = "one_file short_row_file" and self = ?self
         and fd = ?fd and first = ?first and rows = ?rows
         and i = 1 and py_int = decimal_int and py_float = decimal_float and abk = None,
       OF p1 p2 p3 p4 p5]
    from t show ?thesis by (rule conjunct1)
  qed
  from a b c show ?thesis by (intro conjI)
qed

text \<open>
  The claim without the amendment fails: with the row range 2 to 2 the third data
  row is never read, and the load succeeds although that row has one field for a
  header of two.
\<close>

theorem prepare_run_wrong_field_count_counterexample:
  "prepare_run decimal_int decimal_float (rows_from_to 2 2 (load_settings False)) False
     (one_file short_third_row_file) None
   = Inr ([By_number 0], Some [(''A'', IntColumn [3]), (''B'', IntColumn [4])])"
  by code_simp

subsection \<open>Path-name columns without file-name columns\<close>

lemma map_of_set_image_column:
  "map_of (set_image_column m name column ims) m' =
     (if m' = m then Some (AList.update name column (case map_of ims m of None \<Rightarrow> [] | Some d \<Rightarrow> d))
      else map_of ims m')"
  by (simp add: set_image_column_def Let_def update_conv')

lemma distinct_set_image_column:
  "distinct (map fst ims) \<Longrightarrow> distinct (map fst (set_image_column m name column ims))"
  by (simp add: set_image_column_def Let_def distinct_update)

lemma file_name_featureD:
  assumes "is_file_name_feature h"
  shows "\<exists>m. h = make_file_name_feature m \<and> get_image_name h = Inr m"
proof -
  from assms have "h = (FILE_NAME @ ''_'') @ drop (length (FILE_NAME @ ''_'')) h"
    unfolding is_file_name_feature_def by (rule startswith_decompose)
  then obtain m where "h = make_file_name_feature m"
    unfolding make_file_name_feature_def by (metis append.assoc)
  then show ?thesis using get_image_name_make by blast
qed

lemma path_name_featureD:
  assumes "is_path_name_feature h"
  shows "\<exists>m. h = make_path_name_feature m \<and> get_image_name h = Inr m"
proof -
  from assms have "h = (PATH_NAME @ ''_'') @ drop (length (PATH_NAME @ ''_'')) h"
    unfolding is_path_name_feature_def by (rule startswith_decompose)
  then obtain m where "h = make_path_name_feature m"
    unfolding make_path_name_feature_def by (metis append.assoc)
  then show ?thesis using get_image_name_make by blast
qed

lemma feature_names [simp]:
  "is_file_name_feature (make_file_name_feature m)"
  "is_path_name_feature (make_path_name_feature m)"
  "\<not> is_path_name_feature (make_file_name_feature m)"
  "\<not> is_file_name_feature (make_path_name_feature m)"
  "\<not> startswith (make_file_name_feature m) ''Metadata_''"
  "\<not> startswith (make_path_name_feature m) ''Metadata_''"
  "make_file_name_feature m = make_file_name_feature m' \<longleftrightarrow> m = m'"
  "make_path_name_feature m = make_path_name_feature m' \<longleftrightarrow> m = m'"
  "make_path_name_feature m \<noteq> make_file_name_feature m'"
  "make_file_name_feature m \<noteq> make_path_name_feature m'"
  "FILE_NAME \<noteq> PATH_NAME"
  by (simp_all add: is_file_name_feature_def is_path_name_feature_def startswith_def
      make_file_name_feature_def make_path_name_feature_def FILE_NAME_def PATH_NAME_def)

lemma arrange_column_images:
  assumes "wants_images self"
    and "arrange_column py_int py_float self header rows t i = Inr t'"
  shows "has_file t' m = (has_file t m \<or> header ! i = make_file_name_feature m)"
    and "known t' m = (known t m \<or> header ! i = make_file_name_feature m
                         \<or> header ! i = make_path_name_feature m)"
    and "distinct (map fst (images t)) \<Longrightarrow> distinct (map fst (images t'))"
proof -
  let ?h = "header ! i"
  consider (meta) "startswith ?h ''Metadata_''"
    | (fname) "\<not> startswith ?h ''Metadata_''" "is_file_name_feature ?h"
    | (pname) "\<not> startswith ?h ''Metadata_''" "\<not> is_file_name_feature ?h" "is_path_name_feature ?h"
    | (other) "\<not> startswith ?h ''Metadata_''" "\<not> is_file_name_feature ?h" "\<not> is_path_name_feature ?h"
    by blast
  then have "(has_file t' m = (has_file t m \<or> header ! i = make_file_name_feature m))
    \<and> (known t' m = (known t m \<or> header ! i = make_file_name_feature m
                         \<or> header ! i = make_path_name_feature m))
    \<and> (distinct (map fst (images t)) \<longrightarrow> distinct (map fst (images t')))"
  proof cases
    case meta
    then have "images t' = images t"
      using assms(2) by (auto simp: arrange_column_def Let_def)
    moreover have "?h \<noteq> make_file_name_feature m" "?h \<noteq> make_path_name_feature m"
      using meta by auto
    ultimately show ?thesis by (simp add: has_file_def known_def)
  next
    case fname
    then obtain m0 where m0: "?h = make_file_name_feature m0" "get_image_name ?h = Inr m0"
      using file_name_featureD by blast
    then have "images t' = set_image_column m0 FILE_NAME (map (\<lambda>row. row ! i) rows) (images t)"
      using assms fname by (auto simp: arrange_column_def Let_def)
    then show ?thesis using m0
      by (auto simp: has_file_def known_def map_of_set_image_column update_conv'
          distinct_set_image_column)
  next
    case pname
    then obtain m0 where m0: "?h = make_path_name_feature m0" "get_image_name ?h = Inr m0"
      using path_name_featureD by blast
    then have "images t' = set_image_column m0 PATH_NAME (map (\<lambda>row. row ! i) rows) (images t)"
      using assms pname by (auto simp: arrange_column_def Let_def)
    then show ?thesis using m0
      by (auto simp: has_file_def known_def map_of_set_image_column update_conv'
          distinct_set_image_column split: option.splits)
  next
    case other
    then have "images t' = images t"
      using assms(2) by (auto simp: arrange_column_def Let_def)
    moreover have "?h \<noteq> make_file_name_feature m" "?h \<noteq> make_path_name_feature m"
      using other by auto
    ultimately show ?thesis by (simp add: has_file_def known_def)
  qed
  then show "has_file t' m = (has_file t m \<or> header ! i = make_file_name_feature m)"
    and "known t' m = (known t m \<or> header ! i = make_file_name_feature m
                         \<or> header ! i = make_path_name_feature m)"
    and "distinct (map fst (images t)) \<Longrightarrow> distinct (map fst (images t'))"
    by blast+
qed

lemma arrange_Inr: "\<exists>t'. arrange py_int py_float self header rows t indices = Inr t'"
proof (induction indices arbitrary: t)
  case Nil
  then show ?case by simp
next
  case (Cons i indices)
  obtain t1 where "arrange_column py_int py_float self header rows t i = Inr t1"
    using arrange_column_Inr by blast
  with Cons.IH [of t1] show ?case by simp
qed

lemma arrange_images:
  assumes "wants_images self"
  shows "arrange py_int py_float self header rows t indices = Inr t' \<Longrightarrow>
     (has_file t' m = (has_file t m \<or> (\<exists>i\<in>set indices. header ! i = make_file_name_feature m)))
   \<and> (known t' m = (known t m \<or> (\<exists>i\<in>set indices. header ! i = make_file_name_feature m
                                       \<or> header ! i = make_path_name_feature m)))
   \<and> (distinct (map fst (images t)) \<longrightarrow> distinct (map fst (images t')))"
proof (induction indices arbitrary: t)
  case Nil
  then show ?case by simp
next
  case (Cons i indices)
  obtain t1 where t1: "arrange_column py_int py_float self header rows t i = Inr t1"
    using arrange_column_Inr by blast
  with Cons.prems have "arrange py_int py_float self header rows t1 indices = Inr t'"
    by simp
  from Cons.IH [OF this] arrange_column_images(1,2) [OF assms t1, of m]
    arrange_column_images(3) [OF assms t1]
  show ?case by auto
qed

lemma check_images_Some:
  "check_images ims = Some e \<Longrightarrow>
     \<exists>m d. (m, d) \<in> set ims \<and> map_of d FILE_NAME = None \<and> e = ValueError_no_file_name m"
  by (induction ims rule: check_images.induct) (auto split: if_splits)

lemma check_images_None:
  "check_images ims = None \<Longrightarrow> (m, d) \<in> set ims \<Longrightarrow> map_of d FILE_NAME \<noteq> None"
  by (induction ims rule: check_images.induct) (auto split: if_splits)

lemma empty_tables:
  "\<not> has_file \<lparr>dictionary = [], metadata = [], images = []\<rparr> m"
  "\<not> known \<lparr>dictionary = [], metadata = [], images = []\<rparr> m"
  by (simp_all add: has_file_def known_def)

lemma check_images_arranged:
  assumes "wants_images self"
    and "arrange py_int py_float self header rows
           \<lparr>dictionary = [], metadata = [], images = []\<rparr> [0..<length header] = Inr t"
    and "make_path_name_feature x \<in> set header"
    and "make_file_name_feature x \<notin> set header"
  shows "\<exists>m. check_images (images t) = Some (ValueError_no_file_name m)
            \<and> make_path_name_feature m \<in> set header
            \<and> make_file_name_feature m \<notin> set header"
proof -
  let ?t0 = "\<lparr>dictionary = [], metadata = [], images = []\<rparr> :: 'a tables"
  have nth: "(\<exists>i\<in>set [0..<length header]. header ! i = y) = (y \<in> set header)" for y
    by (auto simp: in_set_conv_nth)
  have nth2: "(\<exists>i\<in>set [0..<length header]. header ! i = y \<or> header ! i = z)
                = (y \<in> set header \<or> z \<in> set header)" for y z
    by (auto simp: in_set_conv_nth)
  have hf: "has_file t m = (make_file_name_feature m \<in> set header)"
    and kn: "known t m = (make_file_name_feature m \<in> set header
                            \<or> make_path_name_feature m \<in> set header)"
    and dist: "distinct (map fst (images t))" for m
    using arrange_images [OF assms(1,2), of m] nth [of "make_file_name_feature m"]
      nth2 [of "make_file_name_feature m" "make_path_name_feature m"]
    by (simp_all add: empty_tables)
  from kn [of x] hf [of x] assms(3,4) obtain d where
    d: "map_of (images t) x = Some d" "map_of d FILE_NAME = None"
    by (auto simp: known_def has_file_def split: option.splits)
  then have "(x, d) \<in> set (images t)" by (simp add: map_of_SomeD)
  with d(2) have "check_images (images t) \<noteq> None"
    using check_images_None by blast
  then obtain e where e: "check_images (images t) = Some e" by blast
  then obtain m d' where m: "(m, d') \<in> set (images t)" "map_of d' FILE_NAME = None"
    "e = ValueError_no_file_name m"
    using check_images_Some by blast
  from m(1) dist have "map_of (images t) m = Some d'" by simp
  with m(2) have "known t m" "\<not> has_file t m"
    by (simp_all add: known_def has_file_def)
  with kn [of m] hf [of m] e m(3) show ?thesis by blast
qed

text \<open>
  C4, as amended. Let image loading be enabled (\<open>wants_images\<close>), and let the header,
  after normalization, hold a path-name column \<^verbatim>\<open>PathName_X\<close> and no file-name column
  \<^verbatim>\<open>FileName_X\<close>. Outside batch mode \<open>prepare_run\<close> fails. When reading the rows
  raises nothing and every row read has the length of the header, the error is the
  \<^verbatim>\<open>ValueError\<close> that names an image with a path-name column and no file-name column.
\<close>

theorem prepare_run_path_without_file:
  assumes "wants_images self" and "fs (csv_path self) = Some fd"
    and "records fd = Row first # reader"
    and "header = map header_to_column first"
    and "make_path_name_feature x \<in> set header"
    and "make_file_name_feature x \<notin> set header"
  shows "(\<exists>e. prepare_run py_int py_float self False fs abk = Inl e)
       \<and> (\<forall>rows. read_rows self (length header) reader = Inr rows
                 \<and> check_rows (csv_file_name self) (length header) 0 rows = None
            \<longrightarrow> (\<exists>m. prepare_run py_int py_float self False fs abk
                         = Inl (ValueError_no_file_name m)
                     \<and> make_path_name_feature m \<in> set header
                     \<and> make_file_name_feature m \<notin> set header))"
proof -
  let ?run = "prepare_run py_int py_float self False fs abk"
  have len: "length first = length header"
    using assms(4) by simp
  have named: "\<exists>m. ?run = Inl (ValueError_no_file_name m)
                 \<and> make_path_name_feature m \<in> set header
                 \<and> make_file_name_feature m \<notin> set header"
    if rows: "read_rows self (length header) reader = Inr rows"
      and ok: "check_rows (csv_file_name self) (length header) 0 rows = None" for rows
  proof -
    obtain t where t: "arrange py_int py_float self header rows
           \<lparr>dictionary = [], metadata = [], images = []\<rparr> [0..<length header] = Inr t"
      using arrange_Inr by blast
    from check_images_arranged [OF assms(1) t assms(5,6)] obtain m where
      m: "check_images (images t) = Some (ValueError_no_file_name m)"
        "make_path_name_feature m \<in> set header" "make_file_name_feature m \<notin> set header"
      by blast
    have "?run = Inl (ValueError_no_file_name m)"
      using assms(2,3) assms(4) [symmetric] rows ok t m(1)
      by (simp add: prepare_run_def len)
    with m(2,3) show ?thesis by blast
  qed
  have fails: "\<exists>e. ?run = Inl e"
  proof (cases "read_rows self (length header) reader")
    case (Inl e)
    then have "?run = Inl e"
      using assms(2,3) assms(4) [symmetric] by (simp add: prepare_run_def len)
    then show ?thesis by blast
  next
    case (Inr rows)
    show ?thesis
    proof (cases "check_rows (csv_file_name self) (length header) 0 rows")
      case None
      with Inr named show ?thesis by blast
    next
      case (Some e)
      then have "?run = Inl e"
        using assms(2,3) assms(4) [symmetric] Inr by (simp add: prepare_run_def len)
      then show ?thesis by blast
    qed
  qed
  from fails named show ?thesis by blast
qed

theorem prepare_run_path_without_file_witness:
  "prepare_run decimal_int decimal_float (load_settings True) False (one_file path_only_file)
     None = Inl (ValueError_no_file_name ''DAPI'')"
proof -
  let ?header = "[''PathName_DAPI'']"
  have rows: "read_rows (load_settings True) (length ?header) [Row [''2009-07-08'']]
                = Inr [[''2009-07-08'']]"
    by (simp add: read_rows_def load_settings_def)
  have ok: "check_rows (csv_file_name (load_settings True)) (length ?header) 0
              [[''2009-07-08'']] = None"
    by simp
  have "\<exists>m. prepare_run decimal_int decimal_float (load_settings True) False
               (one_file path_only_file) None = Inl (ValueError_no_file_name m)
           \<and> make_path_name_feature m \<in> set ?header
           \<and> make_file_name_feature m \<notin> set ?header"
    using prepare_run_path_without_file
      [where self = "load_settings True" and fs = "one_file path_only_file"
         and fd = "\<lparr>st_ctime = 1, records = path_only_file\<rparr>"
         and first = "[''Image_PathName_DAPI'']" and reader = "[Row [''2009-07-08'']]"
         and header = ?header and x = "''DAPI''"
         and py_int = decimal_int and py_float = decimal_float and abk = None]
      rows ok
    by (simp add: load_settings_def one_file_def path_only_file_def header_to_column_cases
        startswith_def make_path_name_feature_def make_file_name_feature_def
        PATH_NAME_def FILE_NAME_def)
  then show ?thesis
    by (auto simp: make_path_name_feature_def PATH_NAME_def)
qed

text \<open>
  The claim without the amendment fails: when image loading is disabled, the
  path-name column is loaded as data and the load succeeds.
\<close>

theorem prepare_run_path_without_file_counterexample:
  "prepare_run decimal_int decimal_float (load_settings False) False (one_file path_only_file)
     None = Inr ([By_number 0], Some [(''PathName_DAPI'', StrColumn [''2009-07-08''])])"
  by code_simp

subsection \<open>One unit of work per row\<close>

lemma arrange_append:
  "arrange py_int py_float self header rows t (xs @ ys) =
     (case arrange py_int py_float self header rows t xs of
        Inl e \<Rightarrow> Inl e
      | Inr t1 \<Rightarrow> arrange py_int py_float self header rows t1 ys)"
  by (induction xs arbitrary: t) (auto split: sum.splits)

lemma arrange_column_metadata:
  assumes "arrange_column py_int py_float self header rows t i = Inr t'"
  shows "map_of (metadata t') k =
           (if header ! i = ''Metadata_'' @ k
            then Some (best_cast py_int py_float (map (\<lambda>row. row ! i) rows))
            else map_of (metadata t) k)"
    and "distinct (map fst (metadata t)) \<Longrightarrow> distinct (map fst (metadata t'))"
proof -
  let ?h = "header ! i"
  have "map_of (metadata t') k =
           (if header ! i = ''Metadata_'' @ k
            then Some (best_cast py_int py_float (map (\<lambda>row. row ! i) rows))
            else map_of (metadata t) k)
      \<and> (distinct (map fst (metadata t)) \<longrightarrow> distinct (map fst (metadata t')))"
  proof (cases "startswith ?h ''Metadata_''")
    case True
    then have "?h = ''Metadata_'' @ drop (length ''Metadata_'') ?h"
      by (rule startswith_decompose)
    then obtain r where r: "?h = ''Metadata_'' @ r" ..
    then have "metadata t' = AList.update r (best_cast py_int py_float (map (\<lambda>row. row ! i) rows))
                               (metadata t)"
      using assms True by (auto simp: arrange_column_def Let_def)
    then show ?thesis using r by (auto simp: update_conv' distinct_update)
  next
    case False
    have "?h \<noteq> ''Metadata_'' @ k"
    proof
      assume "?h = ''Metadata_'' @ k"
      then have "startswith ?h ''Metadata_''"
        by (simp only: startswith_append)
      with False show False ..
    qed
    moreover have "metadata t' = metadata t"
      using assms False by (auto simp: arrange_column_def Let_def split: sum.splits if_splits)
    ultimately show ?thesis by simp
  qed
  then show "map_of (metadata t') k =
           (if header ! i = ''Metadata_'' @ k
            then Some (best_cast py_int py_float (map (\<lambda>row. row ! i) rows))
            else map_of (metadata t) k)"
    and "distinct (map fst (metadata t)) \<Longrightarrow> distinct (map fst (metadata t'))"
    by blast+
qed

lemma arrange_upt_metadata:
  "arrange py_int py_float self header rows
     \<lparr>dictionary = [], metadata = [], images = []\<rparr> [0..<n] = Inr t \<Longrightarrow>
   distinct (map fst (metadata t))
   \<and> (\<forall>k. (map_of (metadata t) k \<noteq> None) = (\<exists>j<n. header ! j = ''Metadata_'' @ k))
   \<and> (\<forall>k j. j < n \<and> header ! j = ''Metadata_'' @ k
          \<and> (\<forall>j'. j < j' \<and> j' < n \<longrightarrow> header ! j' \<noteq> ''Metadata_'' @ k)
        \<longrightarrow> map_of (metadata t) k
              = Some (best_cast py_int py_float (map (\<lambda>row. row ! j) rows)))"
proof (induction n arbitrary: t)
  case 0
  then show ?case by auto
next
  case (Suc n)
  let ?t0 = "\<lparr>dictionary = [], metadata = [], images = []\<rparr> :: 'a tables"
  obtain t1 where t1: "arrange py_int py_float self header rows ?t0 [0..<n] = Inr t1"
    using arrange_Inr by blast
  with Suc.prems have step: "arrange_column py_int py_float self header rows t1 n = Inr t"
    by (simp add: arrange_append split: sum.splits)
  note IH = Suc.IH [OF t1]
  note md = arrange_column_metadata [OF step]
  have dist: "distinct (map fst (metadata t))"
    using IH md(2) by blast
  have dom: "(map_of (metadata t) k \<noteq> None) = (\<exists>j<Suc n. header ! j = ''Metadata_'' @ k)" for k
    using IH md(1) [of k] by (auto simp: less_Suc_eq)
  have last: "map_of (metadata t) k
              = Some (best_cast py_int py_float (map (\<lambda>row. row ! j) rows))"
    if "j < Suc n" "header ! j = ''Metadata_'' @ k"
      "\<forall>j'. j < j' \<and> j' < Suc n \<longrightarrow> header ! j' \<noteq> ''Metadata_'' @ k" for k j
  proof (cases "j = n")
    case True
    with that md(1) [of k] show ?thesis by simp
  next
    case False
    with that have "j < n" "header ! n \<noteq> ''Metadata_'' @ k"
      "\<forall>j'. j < j' \<and> j' < n \<longrightarrow> header ! j' \<noteq> ''Metadata_'' @ k"
      by auto
    with IH that(2) md(1) [of k] show ?thesis by auto
  qed
  from dist dom last show ?case by blast
qed

lemma getitem_nat: "getitem xs (int i) = Inr v \<Longrightarrow> i < length xs \<and> v = xs ! i"
  by (auto simp: getitem_def Let_def split: if_splits)

lemma make_key_Inr:
  "make_key md i = Inr key \<Longrightarrow> key = map (\<lambda>(k, c). (k, column_values c ! i)) md"
proof (induction md arbitrary: key)
  case Nil
  then show ?case by simp
next
  case (Cons kc md)
  obtain k c where kc: "kc = (k, c)" by (cases kc)
  from Cons.prems kc obtain v key' where
    v: "column_getitem c (int i) = Inr v" and key': "make_key md i = Inr key'"
    and key: "key = (k, v) # key'"
    by (auto split: sum.splits)
  from v have "v = column_values c ! i"
    using getitem_nat [of "column_values c" i v] by (simp add: column_getitem_def)
  with Cons.IH [OF key'] key kc show ?case by simp
qed

lemma for_each_Inr:
  "for_each f xs = Inr ys \<Longrightarrow>
     length ys = length xs \<and> (\<forall>i<length xs. f (xs ! i) = Inr (ys ! i))"
proof (induction xs arbitrary: ys)
  case Nil
  then show ?case by simp
next
  case (Cons x xs)
  from Cons.prems obtain y ys' where y: "f x = Inr y" and ys': "for_each f xs = Inr ys'"
    and ys: "ys = y # ys'"
    by (auto split: sum.splits)
  from Cons.IH [OF ys'] y ys show ?case
    by (auto simp: nth_Cons split: nat.splits)
qed

text \<open>
  C5. Let \<open>prepare_run\<close> succeed outside batch mode, and let \<open>rows\<close> be the rows it read.
  It calls \<^verbatim>\<open>get_image_set\<close> once per row, in the order of the rows. When the
  normalized header has a column that starts with \<^verbatim>\<open>Metadata_\<close> and
  \<^verbatim>\<open>associating_by_key\<close> is not \<open>False\<close>, the call for row \<open>i\<close> passes a dictionary whose
  keys are the metadata names without the prefix, and which maps the name \<open>k\<close> to the
  value at row \<open>i\<close> of the type-inferred column under \<^verbatim>\<open>Metadata_k\<close> (the last one, if the
  header repeats the name). In every other case the call passes the number \<open>i\<close>,
  counted from 0.
\<close>

theorem prepare_run_one_request_per_row:
  assumes "fs (csv_path self) = Some fd" and "records fd = Row first # reader"
    and "header = map header_to_column first"
    and "read_rows self (length header) reader = Inr rows"
    and "prepare_run py_int py_float self False fs associating_by_key = Inr (requests, d)"
    and "i < length rows"
  shows "length requests = length rows
       \<and> (if (\<exists>h\<in>set header. startswith h ''Metadata_'') \<and> associating_by_key \<noteq> Some False
          then \<exists>key. requests ! i = By_key key
                 \<and> distinct (map fst key)
                 \<and> (\<forall>k. (map_of key k \<noteq> None) = (''Metadata_'' @ k \<in> set header))
                 \<and> (\<forall>k j. j < length header \<and> header ! j = ''Metadata_'' @ k
                        \<and> (\<forall>j'. j < j' \<and> j' < length header
                                  \<longrightarrow> header ! j' \<noteq> ''Metadata_'' @ k)
                      \<longrightarrow> map_of key k
                            = Some (column_values
                                (best_cast py_int py_float (map (\<lambda>row. row ! j) rows)) ! i))
          else requests ! i = By_number i)"
proof -
  let ?use_key = "associating_by_key \<noteq> Some False"
  have len: "length first = length header"
    using assms(3) by simp
  obtain t where t: "arrange py_int py_float self header rows
           \<lparr>dictionary = [], metadata = [], images = []\<rparr> [0..<length header] = Inr t"
    using arrange_Inr by blast
  note csv = assms(1,2) assms(3) [symmetric] assms(4) t
  have reqs: "for_each (get_image_set (metadata t) ?use_key) [0..<length rows] = Inr requests"
  proof (cases "check_rows (csv_file_name self) (length header) 0 rows")
    case (Some e)
    with csv assms(5) show ?thesis by (simp add: prepare_run_def len)
  next
    case rows_ok: None
    show ?thesis
    proof (cases "check_images (images t)")
      case (Some e)
      with csv rows_ok assms(5) show ?thesis by (simp add: prepare_run_def len)
    next
      case images_ok: None
      show ?thesis
      proof (cases "for_each (get_image_set (metadata t) ?use_key) [0..<length rows]")
        case (Inl e)
        with csv rows_ok images_ok assms(5) show ?thesis
          by (simp add: prepare_run_def len)
      next
        case (Inr ys)
        with csv rows_ok images_ok assms(5) show ?thesis
          by (simp add: prepare_run_def len)
      qed
    qed
  qed
  from for_each_Inr [OF reqs] assms(6)
  have n: "length requests = length rows"
    and req: "get_image_set (metadata t) ?use_key i = Inr (requests ! i)"
    by auto
  note md = arrange_upt_metadata [OF t]
  have dom: "(map_of (metadata t) k \<noteq> None) = (''Metadata_'' @ k \<in> set header)" for k
    using md by (auto simp: in_set_conv_nth)
  have nonempty: "(metadata t \<noteq> []) = (\<exists>h\<in>set header. startswith h ''Metadata_'')"
  proof
    assume "metadata t \<noteq> []"
    then obtain k c rest where "metadata t = (k, c) # rest"
      by (cases "metadata t") auto
    then have "map_of (metadata t) k \<noteq> None" by simp
    with dom show "\<exists>h\<in>set header. startswith h ''Metadata_''"
      using startswith_append by blast
  next
    assume "\<exists>h\<in>set header. startswith h ''Metadata_''"
    then obtain h where h: "h \<in> set header" "startswith h ''Metadata_''"
      by (rule bexE)
    define k where "k = drop (length ''Metadata_'') h"
    have "h = ''Metadata_'' @ k"
      unfolding k_def using h(2) by (rule startswith_decompose)
    with h(1) have "''Metadata_'' @ k \<in> set header"
      by (simp only:)
    with dom have "map_of (metadata t) k \<noteq> None" by simp
    then show "metadata t \<noteq> []" by auto
  qed
  show ?thesis
  proof (cases "(\<exists>h\<in>set header. startswith h ''Metadata_'') \<and> ?use_key")
    case False
    with req nonempty have "requests ! i = By_number i"
      by (auto simp: get_image_set_def)
    with n False show ?thesis by auto
  next
    case True
    with req nonempty obtain key where key: "make_key (metadata t) i = Inr key"
      and r: "requests ! i = By_key key"
      by (auto simp: get_image_set_def split: sum.splits)
    from make_key_Inr [OF key]
    have k: "key = map (\<lambda>(k, c). (k, column_values c ! i)) (metadata t)" .
    then have fst: "map fst key = map fst (metadata t)"
      by (auto simp: case_prod_beta)
    have look: "map_of key k = map_option (\<lambda>c. column_values c ! i) (map_of (metadata t) k)" for k
      unfolding k by (simp add: map_of_map)
    have "distinct (map fst key)"
      using fst md by simp
    moreover have "(map_of key k \<noteq> None) = (''Metadata_'' @ k \<in> set header)" for k
      using look [of k] dom [of k] by auto
    moreover have "map_of key k
         = Some (column_values (best_cast py_int py_float (map (\<lambda>row. row ! j) rows)) ! i)"
      if "j < length header" "header ! j = ''Metadata_'' @ k"
        "\<forall>j'. j < j' \<and> j' < length header \<longrightarrow> header ! j' \<noteq> ''Metadata_'' @ k" for k j
      using look [of k] md that by auto
    ultimately show ?thesis using n r True by auto
  qed
qed

theorem prepare_run_one_request_per_row_witness:
  "(\<exists>requests d. prepare_run decimal_int decimal_float (load_settings True) False
        (one_file plate_file) (Some True) = Inr (requests, d)
      \<and> length requests = 2
      \<and> (\<exists>key. requests ! 1 = By_key key \<and> map_of key ''Plate'' = Some (StrV ''P2'')))
   \<and> (\<exists>requests d. prepare_run decimal_int decimal_float (load_settings True) False
        (one_file plate_file) (Some False) = Inr (requests, d)
      \<and> length requests = 2 \<and> requests ! 1 = By_number 1)"
proof -
  let ?header = "[''Metadata_Plate'', ''Dose'']"
  let ?rows = "[[''P1'', ''750''], [''P2'', ''2750'']]"
  let ?table = "[(''Metadata_Plate'', StrColumn [''P1'', ''P2'']),
                 (''Dose'', IntColumn [750, 2750])] :: (string \<times> rat column) list"
  let ?keyed = "[By_key [(''Plate'', StrV ''P1'')], By_key [(''Plate'', StrV ''P2'')]]
                  :: rat request list"
  let ?numbered = "[By_number 0, By_number 1] :: rat request list"
  have fd: "one_file plate_file (csv_path (load_settings True))
              = Some \<lparr>st_ctime = 1, records = plate_file\<rparr>"
    by (simp add: one_file_def load_settings_def)
  have recs: "records \<lparr>st_ctime = 1, records = plate_file\<rparr>
                = Row [''Metadata_Plate'', ''Dose''] # map Row ?rows"
    by (simp add: plate_file_def)
  have header: "?header = map header_to_column [''Metadata_Plate'', ''Dose'']"
    by (simp add: header_to_column_cases startswith_def)
  have rows: "read_rows (load_settings True) (length ?header) (map Row ?rows) = Inr ?rows"
    by (simp add: read_rows_def load_settings_def)
  have cast: "best_cast decimal_int decimal_float [''P1'', ''P2''] = StrColumn [''P1'', ''P2'']"
    by (simp add: best_cast_def decimal_simps)
  have keyed: "prepare_run decimal_int decimal_float (load_settings True) False
        (one_file plate_file) (Some True) = Inr (?keyed, Some ?table)"
    by code_simp
  have numbered: "prepare_run decimal_int decimal_float (load_settings True) False
        (one_file plate_file) (Some False) = Inr (?numbered, Some ?table)"
    by code_simp
  have one: "(1::nat) < length ?rows" by simp
  have meta: "\<exists>h\<in>set ?header. startswith h ''Metadata_''"
    by (simp add: startswith_def)
  from prepare_run_one_request_per_row [OF fd recs header rows keyed one] meta
  obtain key where key: "?keyed ! 1 = By_key key"
    and val: "\<forall>k j. j < length ?header \<and> ?header ! j = ''Metadata_'' @ k
                \<and> (\<forall>j'. j < j' \<and> j' < length ?header \<longrightarrow> ?header ! j' \<noteq> ''Metadata_'' @ k)
              \<longrightarrow> map_of key k
                    = Some (column_values
                        (best_cast decimal_int decimal_float (map (\<lambda>row. row ! j) ?rows)) ! 1)"
    by auto
  have later: "\<forall>j'. 0 < j' \<and> j' < length ?header \<longrightarrow> ?header ! j' \<noteq> ''Metadata_'' @ ''Plate''"
  proof (intro allI impI)
    fix j' :: nat
    assume "0 < j' \<and> j' < length ?header"
    then have "j' = 1" by simp
    then show "?header ! j' \<noteq> ''Metadata_'' @ ''Plate''" by simp
  qed
  have "0 < length ?header \<and> ?header ! 0 = ''Metadata_'' @ ''Plate''
          \<and> (\<forall>j'. 0 < j' \<and> j' < length ?header \<longrightarrow> ?header ! j' \<noteq> ''Metadata_'' @ ''Plate'')"
    using later by simp
  from val [rule_format, OF this]
  have "map_of key ''Plate''
          = Some (column_values
              (best_cast decimal_int decimal_float (map (\<lambda>row. row ! 0) ?rows)) ! 1)" .
  then have "map_of key ''Plate'' = Some (StrV ''P2'')"
    by (simp add: cast)
  with key keyed have a: "\<exists>requests d. prepare_run decimal_int decimal_float
        (load_settings True) False (one_file plate_file) (Some True) = Inr (requests, d)
      \<and> length requests = 2
      \<and> (\<exists>key. requests ! 1 = By_key key \<and> map_of key ''Plate'' = Some (StrV ''P2''))"
    by (intro exI [of _ ?keyed] exI [of _ "Some ?table"]) simp
  from prepare_run_one_request_per_row [OF fd recs header rows numbered one]
  have "?numbered ! 1 = By_number 1" by simp
  with numbered have b: "\<exists>requests d. prepare_run decimal_int decimal_float
        (load_settings True) False (one_file plate_file) (Some False) = Inr (requests, d)
      \<and> length requests = 2 \<and> requests ! 1 = By_number 1"
    by (intro exI [of _ ?numbered] exI [of _ "Some ?table"]) simp
  from a b show ?thesis by blast
qed

subsection \<open>The per-unit publisher\<close>

lemma getitem_in_range: "i < length xs \<Longrightarrow> getitem xs (int i) = Inr (xs ! i)"
  by (simp add: getitem_def)

lemma column_getitem_in_range:
  "i < column_len c \<Longrightarrow> column_getitem c (int i) = Inr (column_values c ! i)"
  by (simp add: column_getitem_def column_len_def getitem_in_range)

lemma match_row_in_range:
  assumes "\<forall>(k, v)\<in>set ks. \<exists>c. map_of table (''Metadata_'' @ k) = Some c \<and> i < column_len c"
  shows "match_row ne table (int i) ks
           = Inr (\<exists>(k, v)\<in>set ks.
                    ne (column_values (the (map_of table (''Metadata_'' @ k))) ! i) v)"
  using assms
proof (induction ks)
  case Nil
  then show ?case by simp
next
  case (Cons kv ks)
  obtain k v where kv: "kv = (k, v)" by (cases kv)
  from Cons.prems kv obtain c where c: "map_of table (''Metadata_'' @ k) = Some c"
    "i < column_len c"
    by auto
  from Cons.prems have "\<forall>(k, v)\<in>set ks.
      \<exists>c. map_of table (''Metadata_'' @ k) = Some c \<and> i < column_len c"
    by simp
  from Cons.IH [OF this] c kv show ?case
    by (simp add: column_getitem_in_range)
qed

lemma find_row_no_match:
  assumes "\<forall>i\<in>set indices. match_row ne table (int i) keys = Inr True"
  shows "find_row ne table keys indices index
           = Inr (if indices = [] then index else Some (int (last indices)))"
  using assms
proof (induction indices arbitrary: index)
  case Nil
  then show ?case by simp
next
  case (Cons i indices)
  then have "match_row ne table (int i) keys = Inr True"
    and "\<forall>i\<in>set indices. match_row ne table (int i) keys = Inr True"
    by simp_all
  with Cons.IH [of "Some (int i)"] show ?case by simp
qed

lemma for_each_map: "\<forall>x\<in>set xs. f x = Inr (g x) \<Longrightarrow> for_each f xs = Inr (map g xs)"
  by (induction xs) simp_all

text \<open>
  C10, as amended. In \<open>run\<close>, let the image set carry keys other than the bare
  \<^verbatim>\<open>number\<close>, let the table have at least one row, let every column have the same
  length (as in every table that \<open>prepare_run\<close> stores) and let every key have its
  \<^verbatim>\<open>Metadata_\<close> column. When in every row some key differs from the value of its
  column, \<open>run\<close> raises nothing: the scan leaves the index at the last row, and the
  values of the last row are published.
\<close>

theorem run_without_match_publishes_last_row:
  assumes "image_set_keys \<noteq> []"
    and "1 < length image_set_keys \<or> fst (hd image_set_keys) \<noteq> ''number''"
    and "table = (feature_name, column) # entries"
    and "0 < n"
    and "\<forall>(f, c)\<in>set table. column_len c = n"
    and "\<forall>(k, v)\<in>set image_set_keys. map_of table (''Metadata_'' @ k) \<noteq> None"
    and "\<forall>i<n. \<exists>(k, v)\<in>set image_set_keys.
            ne (column_values (the (map_of table (''Metadata_'' @ k))) ! i) v"
  shows "run ne table image_set_keys image_set_number
           = Inr (map (\<lambda>(f, c). (f, column_values c ! (n - 1))) table)"
proof -
  have composite: "has_metadata_keys image_set_keys = Inr True"
    using assms(1,2) by (cases image_set_keys) (auto simp: has_metadata_keys_def)
  have len: "column_len c = n" if "map_of table x = Some c" for x c
  proof -
    from that have "(x, c) \<in> set table" by (rule map_of_SomeD)
    with assms(5) show ?thesis by auto
  qed
  have cols: "\<forall>(k, v)\<in>set image_set_keys.
      \<exists>c. map_of table (''Metadata_'' @ k) = Some c \<and> i < column_len c" if "i < n" for i
  proof (intro ballI, clarify)
    fix k v
    assume "(k, v) \<in> set image_set_keys"
    with assms(6) obtain c where c: "map_of table (''Metadata_'' @ k) = Some c"
      by auto
    with len [OF c] that show "\<exists>c. map_of table (''Metadata_'' @ k) = Some c \<and> i < column_len c"
      by simp
  qed
  have fails: "\<forall>i\<in>set [0..<n]. match_row ne table (int i) image_set_keys = Inr True"
  proof
    fix i
    assume "i \<in> set [0..<n]"
    then have i: "i < n" by simp
    from match_row_in_range [OF cols [OF i], of ne] assms(7) i
    show "match_row ne table (int i) image_set_keys = Inr True"
      by simp
  qed
  have n0: "column_len column = n"
    using assms(3,5) by simp
  have last: "last [0..<n] = n - 1" "[0..<n] \<noteq> []"
    using assms(4) by (simp_all add: last_upt)
  have index: "find_row ne table image_set_keys [0..<n] None = Inr (Some (int (n - 1)))"
    using find_row_no_match [OF fails, of None] last by simp
  have "\<forall>entry\<in>set table. publish (Some (int (n - 1))) entry
          = Inr ((\<lambda>(f, c). (f, column_values c ! (n - 1))) entry)"
  proof
    fix entry
    assume e: "entry \<in> set table"
    obtain f c where fc: "entry = (f, c)" by (cases entry)
    with e assms(4,5) have "n - 1 < column_len c" by auto
    then have "column_getitem c (int (n - 1)) = Inr (column_values c ! (n - 1))"
      by (rule column_getitem_in_range)
    with fc show "publish (Some (int (n - 1))) entry
          = Inr ((\<lambda>(f, c). (f, column_values c ! (n - 1))) entry)"
      by (simp add: publish_def)
  qed
  then have "for_each (publish (Some (int (n - 1)))) table
          = Inr (map (\<lambda>(f, c). (f, column_values c ! (n - 1))) table)"
    by (rule for_each_map)
  with composite index n0 assms(3) show ?thesis
    by (simp add: run_def)
qed

theorem run_without_match_publishes_last_row_witness:
  "run (\<noteq>) plate_table [(''Plate'', StrV ''P9'')] 1
     = Inr [(''Metadata_Plate'', StrV ''P2''), (''Dose'', IntV 2750)]"
proof -
  have "run (\<noteq>) plate_table [(''Plate'', StrV ''P9'')] 1
          = Inr (map (\<lambda>(f, c). (f, column_values c ! (2 - 1))) plate_table)"
  proof (rule run_without_match_publishes_last_row)
    show "[(''Plate'', StrV ''P9'' :: rat scalar)] \<noteq> []" by simp
    show "1 < length [(''Plate'', StrV ''P9'' :: rat scalar)]
            \<or> fst (hd [(''Plate'', StrV ''P9'' :: rat scalar)]) \<noteq> ''number''"
      by simp
    show "plate_table = (''Metadata_Plate'', StrColumn [''P1'', ''P2''])
                          # [(''Dose'', IntColumn [750, 2750])]"
      by (simp add: plate_table_def)
    show "0 < (2::nat)" by simp
    show "\<forall>(f, c)\<in>set plate_table. column_len c = 2"
      by (simp add: plate_table_def column_len_def)
    show "\<forall>(k, v)\<in>set [(''Plate'', StrV ''P9'' :: rat scalar)].
            map_of plate_table (''Metadata_'' @ k) \<noteq> None"
      by (simp add: plate_table_def)
    show "\<forall>i<2. \<exists>(k, v)\<in>set [(''Plate'', StrV ''P9'' :: rat scalar)].
            column_values (the (map_of plate_table (''Metadata_'' @ k))) ! i \<noteq> v"
      by (simp add: plate_table_def less_Suc_eq numeral_2_eq_2)
  qed
  then show ?thesis by (simp add: plate_table_def)
qed

text \<open>
  The claim without the amendment fails. When the table has no row, no row matches
  the keys of the image set, the scan never binds \<open>index\<close> and line 532 raises
  \<^verbatim>\<open>UnboundLocalError\<close>. When a key of the image set has no \<^verbatim>\<open>Metadata_\<close> column, line
  523 raises \<^verbatim>\<open>KeyError\<close> at the first row.
\<close>

theorem run_without_match_publishes_last_row_counterexample:
  "run (\<noteq>) [(''Metadata_Plate'', StrColumn [] :: rat column)] [(''Plate'', StrV ''P9'')] 1
     = Inl UnboundLocalError
   \<and> run (\<noteq>) plate_table [(''Well'', StrV ''A01'')] 1 = Inl (KeyError ''Metadata_Well'')"
  by code_simp

subsection \<open>Column types and introspection\<close>

text \<open>
  C6. The claim: a column whose cells all parse as integers is declared an integer
  column whatever the lengths of the cells, and a column with a cell that is not
  numeric is declared a string column as wide as its longest value, wider by the
  padding constant when it is a path-name column. On \<open>image_file\<close>, with image loading
  enabled, the column \<^verbatim>\<open>Count\<close> is declared an integer column and the column
  \<^verbatim>\<open>FileName_DNA\<close> a string column of width 5, but the column \<^verbatim>\<open>PathName_DNA\<close> is
  declared with the width 10 of its longest value and no padding: \<open>len_field\<close>, which
  holds the padded width, is never read. On \<open>mixed_file\<close> the width is 1, the length of
  the cell \<^verbatim>\<open>a\<close>, although the cell \<^verbatim>\<open>12345\<close> above it has length 5: a cell that
  parses as a number leaves the loop before the width is recorded. Both hold for every
  value of \<open>path_name_length\<close>.
\<close>

theorem get_measurement_columns_widths:
  "snd (get_measurement_columns decimal_int decimal_float path_name_length
          (load_settings True) (one_file image_file) Map.empty)
     = Inr [(''Image'', ''PathName_DNA'', COLTYPE_VARCHAR 10),
            (''Image'', ''FileName_DNA'', COLTYPE_VARCHAR 5),
            (''Image'', ''Count'', COLTYPE_INTEGER),
            (''Image'', ''MD5Digest_DNA'', COLTYPE_VARCHAR 32)]
   \<and> snd (get_measurement_columns decimal_int decimal_float path_name_length
          (load_settings True) (one_file mixed_file) Map.empty)
     = Inr [(''Image'', ''Label'', COLTYPE_VARCHAR 1)]"
  by code_simp

lemma get_cache_info_missing:
  "fs (csv_path self) = None \<Longrightarrow> get_cache_info self fs cache = (cache, Inl OSError)"
  by (simp add: get_cache_info_def)

lemma get_cache_info_miss:
  assumes "fs (csv_path self) = Some fd"
    and "case cache (csv_path self) of
           None \<Rightarrow> True
         | Some en \<Rightarrow> ctime en < st_ctime fd \<or> (cached_header en = None \<and> cached_columns en = None)"
  shows "\<exists>cache1 entry. get_cache_info self fs cache = (cache1, Inr entry)
           \<and> cached_header entry = None \<and> cached_columns entry = None"
proof (cases "cache (csv_path self)")
  case None
  with assms(1) show ?thesis
    by (simp add: get_cache_info_def Let_def)
next
  case (Some en)
  with assms show ?thesis
    by (auto simp: get_cache_info_def Let_def)
qed

text \<open>
  The failures that the introspection recovers from. Let the file be missing, or let
  its first record be unreadable (the file is empty, or the parser raises on the
  header) while the cache holds no current header and no current declaration for the
  file. Then \<open>get_categories\<close>, \<open>get_measurements\<close> and \<open>get_measurement_columns\<close> return
  the empty list instead of raising, and \<open>prepare_run\<close>, outside batch mode, raises.
\<close>

lemma header_failure_gives_empty_lists:
  assumes "case fs (csv_path self) of
             None \<Rightarrow> True
           | Some fd \<Rightarrow>
               (\<exists>e. reader_next (records fd) = Inl e)
               \<and> (case cache (csv_path self) of
                    None \<Rightarrow> True
                  | Some en \<Rightarrow> ctime en < st_ctime fd
                               \<or> (cached_header en = None \<and> cached_columns en = None))"
  shows "snd (get_categories self fs cache object_name) = []
       \<and> snd (get_measurements self fs cache object_name category) = []
       \<and> snd (get_measurement_columns py_int py_float path_name_length self fs cache) = Inr []
       \<and> (\<exists>e. prepare_run py_int py_float self False fs abk = Inl e)"
proof (cases "fs (csv_path self)")
  case None
  have info: "get_cache_info self fs cache = (cache, Inl OSError)"
    using None by (rule get_cache_info_missing)
  have "snd (get_header self fs cache) = Inl OSError"
    by (simp add: get_header_def info)
  then have "snd (get_categories self fs cache object_name) = []"
    and "snd (get_measurements self fs cache object_name category) = []"
    by (auto simp: get_categories_def get_measurements_def split: prod.splits sum.splits)
  moreover have "snd (get_measurement_columns py_int py_float path_name_length self fs cache)
                   = Inr []"
    by (simp add: get_measurement_columns_def info)
  moreover have "prepare_run py_int py_float self False fs abk = Inl IOError"
    using None by (simp add: prepare_run_def)
  ultimately show ?thesis by simp
next
  case (Some fd)
  with assms obtain e where e: "reader_next (records fd) = Inl e"
    and miss: "case cache (csv_path self) of
           None \<Rightarrow> True
         | Some en \<Rightarrow> ctime en < st_ctime fd \<or> (cached_header en = None \<and> cached_columns en = None)"
    by auto
  from get_cache_info_miss [of fs self fd cache, OF Some miss] obtain cache1 entry where
    info: "get_cache_info self fs cache = (cache1, Inr entry)"
    and none: "cached_header entry = None" "cached_columns entry = None"
    by blast
  have first: "read_first_record self fs = Inl e"
    using Some e by (simp add: read_first_record_def)
  have "snd (get_header self fs cache) = Inl e"
    by (simp add: get_header_def info none first)
  then have "snd (get_categories self fs cache object_name) = []"
    and "snd (get_measurements self fs cache object_name category) = []"
    by (auto simp: get_categories_def get_measurements_def split: prod.splits sum.splits)
  moreover have "snd (get_measurement_columns py_int py_float path_name_length self fs cache)
                   = Inr []"
    by (simp add: get_measurement_columns_def info none first)
  moreover have "prepare_run py_int py_float self False fs abk = Inl e"
    using Some e by (simp add: prepare_run_def)
  ultimately show ?thesis by simp
qed

lemma header_failure_gives_empty_lists_empty_file:
  "snd (get_categories (load_settings True) (one_file []) Map.empty ''Image'') = []
   \<and> snd (get_measurements (load_settings True) (one_file []) Map.empty ''Image'' ''Metadata'')
       = []
   \<and> snd (get_measurement_columns decimal_int decimal_float 256 (load_settings True)
            (one_file []) Map.empty) = Inr []
   \<and> (\<exists>e. prepare_run decimal_int decimal_float (load_settings True) False (one_file []) None
            = Inl e)"
proof -
  have "case one_file [] (csv_path (load_settings True)) of
             None \<Rightarrow> True
           | Some fd \<Rightarrow>
               (\<exists>e. reader_next (records fd) = Inl e)
               \<and> (case Map.empty (csv_path (load_settings True)) of
                    None \<Rightarrow> True
                  | Some en \<Rightarrow> ctime en < st_ctime fd
                               \<or> (cached_header en = None \<and> cached_columns en = None))"
    by (simp add: one_file_def load_settings_def)
  then show ?thesis
    by (rule header_failure_gives_empty_lists)
qed

text \<open>
  C7. The claim: on every input on which parsing the file fails, \<open>get_categories\<close>,
  \<open>get_measurements\<close> and \<open>get_measurement_columns\<close> return an empty list instead of
  propagating the error, and only the authoritative load propagates parse failures.
  In \<open>get_measurement_columns\<close> the \<^verbatim>\<open>try\<close> of lines 566 to 576 ends with the header;
  the scan of the data rows, lines 579 to 601, is outside it. On \<open>malformed_row_file\<close>,
  where the parser raises on the second record, the authoritative load raises
  \<^verbatim>\<open>csv.Error\<close> and so does \<open>get_measurement_columns\<close>. On \<open>long_row_file\<close>, where the
  data row has two fields for a header of one, the authoritative load raises the
  \<^verbatim>\<open>ValueError\<close> of line 390 and \<open>get_measurement_columns\<close> raises \<^verbatim>\<open>IndexError\<close> at
  \<^verbatim>\<open>coltypes[index]\<close>. Neither returns the empty list, for every value of
  \<open>path_name_length\<close>.
\<close>

theorem get_measurement_columns_propagates_scan_errors:
  "prepare_run decimal_int decimal_float (load_settings True) False
       (one_file malformed_row_file) None = Inl CsvError
   \<and> snd (get_measurement_columns decimal_int decimal_float path_name_length
            (load_settings True) (one_file malformed_row_file) Map.empty) = Inl CsvError
   \<and> prepare_run decimal_int decimal_float (load_settings True) False
       (one_file long_row_file) None = Inl (ValueError_line 2 ''data.csv'' ''1,2'' 2 1)
   \<and> snd (get_measurement_columns decimal_int decimal_float path_name_length
            (load_settings True) (one_file long_row_file) Map.empty) = Inl IndexError"
  by code_simp

end
